theory Spec2Isabelle
  imports Main "HOL-Library.Word" "HOL-Library.Monad_Syntax" "HOL-Library.Signed_Division"
begin

unbundle bit_operations_syntax

section \<open>The lmkd control packet codec (include/lmkd.h)\<close>

subsection \<open>Machine values and byte order\<close>

text \<open>
  A C \<open>int\<close>, \<open>pid_t\<close>, \<open>uid_t\<close> or enum object is a 32-bit pattern; the casts between
  them in the header keep the pattern, so payload fields and packet slots are 32-bit words.
  Counts and indices of type \<open>int\<close> or \<open>size_t\<close> are modelled as \<open>int\<close> or \<open>nat\<close>
  without wrap-around: signed overflow is undefined in C, and an index large enough to
  overflow lies outside every buffer of fewer than \<open>2^31\<close> slots, where the model
  already answers with the out-of-bounds result.
\<close>

type_synonym word32 = "32 word"

text \<open>
  Modelled from the spec: \<open>htonl\<close> and \<open>ntohl\<close> come from the C library
  (\<open>arpa/inet.h\<close>), not from the header.  The wire carries every integer in network
  (big-endian) byte order regardless of host order, so on a big-endian host both are the
  identity and on a little-endian host both reverse the four bytes of the value.
\<close>

datatype byte_order = LittleEndian | BigEndian

definition bswap32 :: "word32 \<Rightarrow> word32" where
  "bswap32 w =
     push_bit 24 (take_bit 8 w)
     OR push_bit 16 (take_bit 8 (drop_bit 8 w))
     OR push_bit 8 (take_bit 8 (drop_bit 16 w))
     OR take_bit 8 (drop_bit 24 w)"

fun htonl :: "byte_order \<Rightarrow> word32 \<Rightarrow> word32" where
  "htonl BigEndian w = w"
| "htonl LittleEndian w = bswap32 w"

fun ntohl :: "byte_order \<Rightarrow> word32 \<Rightarrow> word32" where
  "ntohl BigEndian w = w"
| "ntohl LittleEndian w = bswap32 w"

subsection \<open>Constants and enums\<close>

datatype lmk_cmd =
    LMK_TARGET
  | LMK_PROCPRIO
  | LMK_PROCREMOVE
  | LMK_PROCPURGE
  | LMK_GETKILLCNT
  | LMK_SUBSCRIBE
  | LMK_PROCKILL
  | LMK_UPDATE_PROPS
  | LMK_STAT_KILL_OCCURRED
  | LMK_START_MONITORING
  | LMK_BOOT_COMPLETED
  | LMK_PROCS_PRIO

text \<open>The integer value of each enumerator, counted from \<open>LMK_TARGET = 0\<close>.\<close>

fun lmk_cmd_val :: "lmk_cmd \<Rightarrow> word32" where
  "lmk_cmd_val LMK_TARGET = 0"
| "lmk_cmd_val LMK_PROCPRIO = 1"
| "lmk_cmd_val LMK_PROCREMOVE = 2"
| "lmk_cmd_val LMK_PROCPURGE = 3"
| "lmk_cmd_val LMK_GETKILLCNT = 4"
| "lmk_cmd_val LMK_SUBSCRIBE = 5"
| "lmk_cmd_val LMK_PROCKILL = 6"
| "lmk_cmd_val LMK_UPDATE_PROPS = 7"
| "lmk_cmd_val LMK_STAT_KILL_OCCURRED = 8"
| "lmk_cmd_val LMK_START_MONITORING = 9"
| "lmk_cmd_val LMK_BOOT_COMPLETED = 10"
| "lmk_cmd_val LMK_PROCS_PRIO = 11"

definition sizeof_int :: nat where
  "sizeof_int = 4"

definition MAX_TARGETS :: nat where
  "MAX_TARGETS = 6"

definition CTRL_PACKET_MAX_SIZE :: nat where
  "CTRL_PACKET_MAX_SIZE = sizeof_int * (MAX_TARGETS * 2 + 1)"

text \<open>\<open>enum proc_type\<close>: \<open>PROC_TYPE_APP = PROC_TYPE_FIRST = 0\<close>, then \<open>PROC_TYPE_SERVICE\<close>.\<close>

definition PROC_TYPE_APP :: word32 where
  "PROC_TYPE_APP = 0"

definition PROC_TYPE_SERVICE :: word32 where
  "PROC_TYPE_SERVICE = 1"

definition LMK_PROCPRIO_FIELD_COUNT :: int where
  "LMK_PROCPRIO_FIELD_COUNT = 4"

definition LMK_PROCPRIO_SIZE :: nat where
  "LMK_PROCPRIO_SIZE = nat LMK_PROCPRIO_FIELD_COUNT * sizeof_int"

definition PROCS_PRIO_MAX_RECORD_COUNT :: nat where
  "PROCS_PRIO_MAX_RECORD_COUNT = CTRL_PACKET_MAX_SIZE div LMK_PROCPRIO_SIZE"

subsection \<open>The packet buffer\<close>

text \<open>
  \<open>LMKD_CTRL_PACKET\<close> is \<open>int[CTRL_PACKET_MAX_SIZE / sizeof(int)]\<close>; as a parameter it is
  a pointer to the caller's array, whose slots are the list.  The header checks no index:
  reading or writing a slot outside the array is undefined behaviour in C, which the model
  makes visible as \<open>None\<close>.
\<close>

type_synonym packet = "word32 list"

definition CTRL_PACKET_SLOTS :: nat where
  "CTRL_PACKET_SLOTS = CTRL_PACKET_MAX_SIZE div sizeof_int"

definition pk_read :: "packet \<Rightarrow> int \<Rightarrow> word32 option" where
  "pk_read p i = (if 0 \<le> i \<and> i < int (length p) then Some (p ! nat i) else None)"

definition pk_write :: "packet \<Rightarrow> int \<Rightarrow> word32 \<Rightarrow> packet option" where
  "pk_write p i v = (if 0 \<le> i \<and> i < int (length p) then Some (p[nat i := v]) else None)"

subsection \<open>Payload structs\<close>

record lmk_target =
  minfree :: word32
  oom_adj_score :: word32

record lmk_procprio =
  pid :: word32
  uid :: word32
  oomadj :: word32
  ptype :: word32

record lmk_procremove =
  rm_pid :: word32

record lmk_getkillcnt =
  min_oomadj :: word32
  max_oomadj :: word32

record lmk_subscribe =
  evt_type :: word32

record lmk_update_props_reply =
  up_result :: word32

record lmk_boot_completed_notif_reply =
  bc_result :: word32

text \<open>
  \<open>struct lmk_procs_prio\<close> holds an array of \<open>PROCS_PRIO_MAX_RECORD_COUNT\<close> records; an
  access to \<open>procs[i]\<close> outside the array is \<open>None\<close>, as for the packet.
\<close>

record lmk_procs_prio =
  procs :: "lmk_procprio list"

definition procs_get :: "lmk_procs_prio \<Rightarrow> int \<Rightarrow> lmk_procprio option" where
  "procs_get params i =
     (if 0 \<le> i \<and> i < int (length (procs params)) then Some (procs params ! nat i) else None)"

definition procs_set ::
  "lmk_procs_prio \<Rightarrow> int \<Rightarrow> (lmk_procprio \<Rightarrow> lmk_procprio) \<Rightarrow> lmk_procs_prio option" where
  "procs_set params i f =
     (if 0 \<le> i \<and> i < int (length (procs params))
      then Some (params\<lparr>procs := (procs params)[nat i := f (procs params ! nat i)]\<rparr>)
      else None)"

subsection \<open>Decoders and encoders\<close>

definition lmkd_pack_get_cmd :: "byte_order \<Rightarrow> packet \<Rightarrow> word32 option" where
  "lmkd_pack_get_cmd h pack = do { w \<leftarrow> pk_read pack 0; Some (ntohl h w) }"

definition lmkd_pack_get_target :: "byte_order \<Rightarrow> packet \<Rightarrow> int \<Rightarrow> lmk_target option" where
  "lmkd_pack_get_target h packet target_idx = do {
     a \<leftarrow> pk_read packet (target_idx * 2 + 1);
     b \<leftarrow> pk_read packet (target_idx * 2 + 2);
     Some \<lparr>minfree = ntohl h a, oom_adj_score = ntohl h b\<rparr>
   }"

text \<open>
  The loop of \<open>lmkd_pack_set_target\<close>: \<open>targets\<close> is what the pointer still has ahead of
  it, \<open>target_cnt\<close> counts down, \<open>idx\<close> is the next slot.
\<close>

fun set_target_loop ::
  "byte_order \<Rightarrow> packet \<Rightarrow> lmk_target list \<Rightarrow> nat \<Rightarrow> int \<Rightarrow> (packet \<times> int) option" where
  "set_target_loop h packet targets 0 idx = Some (packet, idx)"
| "set_target_loop h packet [] (Suc n) idx = None"
| "set_target_loop h packet (t # targets) (Suc n) idx = do {
     p1 \<leftarrow> pk_write packet idx (htonl h (minfree t));
     p2 \<leftarrow> pk_write p1 (idx + 1) (htonl h (oom_adj_score t));
     set_target_loop h p2 targets n (idx + 2)
   }"

definition lmkd_pack_set_target ::
  "byte_order \<Rightarrow> packet \<Rightarrow> lmk_target list \<Rightarrow> nat \<Rightarrow> (packet \<times> nat) option" where
  "lmkd_pack_set_target h packet targets target_cnt = do {
     p0 \<leftarrow> pk_write packet 0 (htonl h (lmk_cmd_val LMK_TARGET));
     (p, idx) \<leftarrow> set_target_loop h p0 targets target_cnt 1;
     Some (p, nat idx * sizeof_int)
   }"

definition lmkd_pack_get_procprio ::
  "byte_order \<Rightarrow> packet \<Rightarrow> int \<Rightarrow> lmk_procprio option" where
  "lmkd_pack_get_procprio h packet field_count = do {
     a \<leftarrow> pk_read packet 1;
     b \<leftarrow> pk_read packet 2;
     c \<leftarrow> pk_read packet 3;
     t \<leftarrow> (if field_count > 3 then do { d \<leftarrow> pk_read packet 4; Some (ntohl h d) }
           else Some PROC_TYPE_APP);
     Some \<lparr>pid = ntohl h a, uid = ntohl h b, oomadj = ntohl h c, ptype = t\<rparr>
   }"

definition lmkd_pack_set_procprio ::
  "byte_order \<Rightarrow> packet \<Rightarrow> lmk_procprio \<Rightarrow> (packet \<times> nat) option" where
  "lmkd_pack_set_procprio h packet params = do {
     p0 \<leftarrow> pk_write packet 0 (htonl h (lmk_cmd_val LMK_PROCPRIO));
     p1 \<leftarrow> pk_write p0 1 (htonl h (pid params));
     p2 \<leftarrow> pk_write p1 2 (htonl h (uid params));
     p3 \<leftarrow> pk_write p2 3 (htonl h (oomadj params));
     p4 \<leftarrow> pk_write p3 4 (htonl h (ptype params));
     Some (p4, 5 * sizeof_int)
   }"

definition lmkd_pack_get_procremove :: "byte_order \<Rightarrow> packet \<Rightarrow> lmk_procremove option" where
  "lmkd_pack_get_procremove h packet = do {
     a \<leftarrow> pk_read packet 1;
     Some \<lparr>rm_pid = ntohl h a\<rparr>
   }"

definition lmkd_pack_set_procremove ::
  "byte_order \<Rightarrow> packet \<Rightarrow> lmk_procremove \<Rightarrow> (packet \<times> nat) option" where
  "lmkd_pack_set_procremove h packet params = do {
     p0 \<leftarrow> pk_write packet 0 (htonl h (lmk_cmd_val LMK_PROCREMOVE));
     p1 \<leftarrow> pk_write p0 1 (htonl h (rm_pid params));
     Some (p1, 2 * sizeof_int)
   }"

definition lmkd_pack_set_procpurge :: "byte_order \<Rightarrow> packet \<Rightarrow> (packet \<times> nat) option" where
  "lmkd_pack_set_procpurge h packet = do {
     p0 \<leftarrow> pk_write packet 0 (htonl h (lmk_cmd_val LMK_PROCPURGE));
     Some (p0, sizeof_int)
   }"

definition lmkd_pack_get_getkillcnt :: "byte_order \<Rightarrow> packet \<Rightarrow> lmk_getkillcnt option" where
  "lmkd_pack_get_getkillcnt h packet = do {
     a \<leftarrow> pk_read packet 1;
     b \<leftarrow> pk_read packet 2;
     Some \<lparr>min_oomadj = ntohl h a, max_oomadj = ntohl h b\<rparr>
   }"

definition lmkd_pack_set_getkillcnt ::
  "byte_order \<Rightarrow> packet \<Rightarrow> lmk_getkillcnt \<Rightarrow> (packet \<times> nat) option" where
  "lmkd_pack_set_getkillcnt h packet params = do {
     p0 \<leftarrow> pk_write packet 0 (htonl h (lmk_cmd_val LMK_GETKILLCNT));
     p1 \<leftarrow> pk_write p0 1 (htonl h (min_oomadj params));
     p2 \<leftarrow> pk_write p1 2 (htonl h (max_oomadj params));
     Some (p2, 3 * sizeof_int)
   }"

definition lmkd_pack_set_getkillcnt_repl ::
  "byte_order \<Rightarrow> packet \<Rightarrow> word32 \<Rightarrow> (packet \<times> nat) option" where
  "lmkd_pack_set_getkillcnt_repl h packet kill_cnt = do {
     p0 \<leftarrow> pk_write packet 0 (htonl h (lmk_cmd_val LMK_GETKILLCNT));
     p1 \<leftarrow> pk_write p0 1 (htonl h kill_cnt);
     Some (p1, 2 * sizeof_int)
   }"

definition lmkd_pack_get_subscribe :: "byte_order \<Rightarrow> packet \<Rightarrow> lmk_subscribe option" where
  "lmkd_pack_get_subscribe h packet = do {
     a \<leftarrow> pk_read packet 1;
     Some \<lparr>evt_type = ntohl h a\<rparr>
   }"

definition lmkd_pack_set_subscribe ::
  "byte_order \<Rightarrow> packet \<Rightarrow> word32 \<Rightarrow> (packet \<times> nat) option" where
  "lmkd_pack_set_subscribe h packet evt = do {
     p0 \<leftarrow> pk_write packet 0 (htonl h (lmk_cmd_val LMK_SUBSCRIBE));
     p1 \<leftarrow> pk_write p0 1 (htonl h evt);
     Some (p1, 2 * sizeof_int)
   }"

definition lmkd_pack_set_prockills ::
  "byte_order \<Rightarrow> packet \<Rightarrow> word32 \<Rightarrow> word32 \<Rightarrow> (packet \<times> nat) option" where
  "lmkd_pack_set_prockills h packet kpid kuid = do {
     p0 \<leftarrow> pk_write packet 0 (htonl h (lmk_cmd_val LMK_PROCKILL));
     p1 \<leftarrow> pk_write p0 1 (htonl h kpid);
     p2 \<leftarrow> pk_write p1 2 (htonl h kuid);
     Some (p2, 3 * sizeof_int)
   }"

definition lmkd_pack_set_update_props :: "byte_order \<Rightarrow> packet \<Rightarrow> (packet \<times> nat) option" where
  "lmkd_pack_set_update_props h packet = do {
     p0 \<leftarrow> pk_write packet 0 (htonl h (lmk_cmd_val LMK_UPDATE_PROPS));
     Some (p0, sizeof_int)
   }"

definition lmkd_pack_start_monitoring :: "byte_order \<Rightarrow> packet \<Rightarrow> (packet \<times> nat) option" where
  "lmkd_pack_start_monitoring h packet = do {
     p0 \<leftarrow> pk_write packet 0 (htonl h (lmk_cmd_val LMK_START_MONITORING));
     Some (p0, sizeof_int)
   }"

definition lmkd_pack_set_update_props_repl ::
  "byte_order \<Rightarrow> packet \<Rightarrow> word32 \<Rightarrow> (packet \<times> nat) option" where
  "lmkd_pack_set_update_props_repl h packet result = do {
     p0 \<leftarrow> pk_write packet 0 (htonl h (lmk_cmd_val LMK_UPDATE_PROPS));
     p1 \<leftarrow> pk_write p0 1 (htonl h result);
     Some (p1, 2 * sizeof_int)
   }"

definition lmkd_pack_get_update_props_repl ::
  "byte_order \<Rightarrow> packet \<Rightarrow> lmk_update_props_reply option" where
  "lmkd_pack_get_update_props_repl h packet = do {
     a \<leftarrow> pk_read packet 1;
     Some \<lparr>up_result = ntohl h a\<rparr>
   }"

definition lmkd_pack_set_boot_completed_notif ::
  "byte_order \<Rightarrow> packet \<Rightarrow> (packet \<times> nat) option" where
  "lmkd_pack_set_boot_completed_notif h packet = do {
     p0 \<leftarrow> pk_write packet 0 (htonl h (lmk_cmd_val LMK_BOOT_COMPLETED));
     Some (p0, sizeof_int)
   }"

definition lmkd_pack_set_boot_completed_notif_repl ::
  "byte_order \<Rightarrow> packet \<Rightarrow> word32 \<Rightarrow> (packet \<times> nat) option" where
  "lmkd_pack_set_boot_completed_notif_repl h packet result = do {
     p0 \<leftarrow> pk_write packet 0 (htonl h (lmk_cmd_val LMK_BOOT_COMPLETED));
     p1 \<leftarrow> pk_write p0 1 (htonl h result);
     Some (p1, 2 * sizeof_int)
   }"

definition lmkd_pack_get_boot_completed_notif_repl ::
  "byte_order \<Rightarrow> packet \<Rightarrow> lmk_boot_completed_notif_reply option" where
  "lmkd_pack_get_boot_completed_notif_repl h packet = do {
     a \<leftarrow> pk_read packet 1;
     Some \<lparr>bc_result = ntohl h a\<rparr>
   }"

text \<open>
  The \<open>for\<close> loop of \<open>lmkd_pack_get_procs_prio\<close>, with \<open>packetIdx\<close> the next slot to read.
  Each of the four assignments reads one slot and stores one field of \<open>procs[procs_idx]\<close>.
\<close>

function get_procs_prio_loop ::
  "byte_order \<Rightarrow> packet \<Rightarrow> int \<Rightarrow> int \<Rightarrow> int \<Rightarrow> lmk_procs_prio \<Rightarrow> lmk_procs_prio option" where
  "get_procs_prio_loop h packet procs_count procs_idx packetIdx params =
     (if procs_idx < procs_count then do {
        a \<leftarrow> pk_read packet packetIdx;
        q1 \<leftarrow> procs_set params procs_idx (\<lambda>r. r\<lparr>pid := ntohl h a\<rparr>);
        b \<leftarrow> pk_read packet (packetIdx + 1);
        q2 \<leftarrow> procs_set q1 procs_idx (\<lambda>r. r\<lparr>uid := ntohl h b\<rparr>);
        c \<leftarrow> pk_read packet (packetIdx + 2);
        q3 \<leftarrow> procs_set q2 procs_idx (\<lambda>r. r\<lparr>oomadj := ntohl h c\<rparr>);
        d \<leftarrow> pk_read packet (packetIdx + 3);
        q4 \<leftarrow> procs_set q3 procs_idx (\<lambda>r. r\<lparr>ptype := ntohl h d\<rparr>);
        get_procs_prio_loop h packet procs_count (procs_idx + 1) (packetIdx + 4) q4
      } else Some params)"
  by pat_completeness auto
termination
  by (relation "measure (\<lambda>(h, packet, procs_count, procs_idx, packetIdx, params).
        nat (procs_count - procs_idx))") auto

declare get_procs_prio_loop.simps [simp del]

text \<open>
  The result pairs the returned \<open>int\<close> with the output struct as the call leaves it.
  \<open>%\<close> and \<open>/\<close> of C truncate towards zero (\<open>smod\<close>, \<open>sdiv\<close>).
\<close>

definition lmkd_pack_get_procs_prio ::
  "byte_order \<Rightarrow> packet \<Rightarrow> lmk_procs_prio \<Rightarrow> int \<Rightarrow> (int \<times> lmk_procs_prio) option" where
  "lmkd_pack_get_procs_prio h packet params field_count =
     (if field_count < LMK_PROCPRIO_FIELD_COUNT
         \<or> field_count smod LMK_PROCPRIO_FIELD_COUNT \<noteq> 0
      then Some (- 1, params)
      else
        let procs_count = field_count sdiv LMK_PROCPRIO_FIELD_COUNT in
        do {
          q \<leftarrow> get_procs_prio_loop h packet procs_count 0 1 params;
          Some (procs_count, q)
        })"

function set_procs_prio_loop ::
  "byte_order \<Rightarrow> packet \<Rightarrow> lmk_procs_prio \<Rightarrow> int \<Rightarrow> int \<Rightarrow> int \<Rightarrow> (packet \<times> int) option" where
  "set_procs_prio_loop h packet params procs_count i packetIdx =
     (if i < procs_count then do {
        r \<leftarrow> procs_get params i;
        p1 \<leftarrow> pk_write packet packetIdx (htonl h (pid r));
        p2 \<leftarrow> pk_write p1 (packetIdx + 1) (htonl h (uid r));
        p3 \<leftarrow> pk_write p2 (packetIdx + 2) (htonl h (oomadj r));
        p4 \<leftarrow> pk_write p3 (packetIdx + 3) (htonl h (ptype r));
        set_procs_prio_loop h p4 params procs_count (i + 1) (packetIdx + 4)
      } else Some (packet, packetIdx))"
  by pat_completeness auto
termination
  by (relation "measure (\<lambda>(h, packet, params, procs_count, i, packetIdx).
        nat (procs_count - i))") auto

declare set_procs_prio_loop.simps [simp del]

definition lmkd_pack_set_procs_prio ::
  "byte_order \<Rightarrow> packet \<Rightarrow> lmk_procs_prio \<Rightarrow> int \<Rightarrow> (packet \<times> nat) option" where
  "lmkd_pack_set_procs_prio h packet params procs_count = do {
     p0 \<leftarrow> pk_write packet 0 (htonl h (lmk_cmd_val LMK_PROCS_PRIO));
     (p, packetIdx) \<leftarrow> set_procs_prio_loop h p0 params procs_count 0 1;
     Some (p, nat packetIdx * sizeof_int)
   }"


subsection \<open>The encode operations as one interface\<close>

text \<open>
  One constructor for each \<open>lmkd_pack_set_*\<close> / \<open>lmkd_pack_start_monitoring\<close> function of
  the header, carrying that function's arguments; \<open>encode\<close> calls the function.
\<close>

datatype enc_call =
    Set_target "lmk_target list" nat
  | Set_procprio lmk_procprio
  | Set_procremove lmk_procremove
  | Set_procpurge
  | Set_getkillcnt lmk_getkillcnt
  | Set_getkillcnt_repl word32
  | Set_subscribe word32
  | Set_prockills word32 word32
  | Set_update_props
  | Start_monitoring
  | Set_update_props_repl word32
  | Set_boot_completed_notif
  | Set_boot_completed_notif_repl word32
  | Set_procs_prio lmk_procs_prio int

fun encode :: "byte_order \<Rightarrow> packet \<Rightarrow> enc_call \<Rightarrow> (packet \<times> nat) option" where
  "encode h p (Set_target ts n) = lmkd_pack_set_target h p ts n"
| "encode h p (Set_procprio r) = lmkd_pack_set_procprio h p r"
| "encode h p (Set_procremove r) = lmkd_pack_set_procremove h p r"
| "encode h p Set_procpurge = lmkd_pack_set_procpurge h p"
| "encode h p (Set_getkillcnt r) = lmkd_pack_set_getkillcnt h p r"
| "encode h p (Set_getkillcnt_repl k) = lmkd_pack_set_getkillcnt_repl h p k"
| "encode h p (Set_subscribe e) = lmkd_pack_set_subscribe h p e"
| "encode h p (Set_prockills a b) = lmkd_pack_set_prockills h p a b"
| "encode h p Set_update_props = lmkd_pack_set_update_props h p"
| "encode h p Start_monitoring = lmkd_pack_start_monitoring h p"
| "encode h p (Set_update_props_repl r) = lmkd_pack_set_update_props_repl h p r"
| "encode h p Set_boot_completed_notif = lmkd_pack_set_boot_completed_notif h p"
| "encode h p (Set_boot_completed_notif_repl r) = lmkd_pack_set_boot_completed_notif_repl h p r"
| "encode h p (Set_procs_prio params n) = lmkd_pack_set_procs_prio h p params n"

subsection \<open>The wire layout, as the specification gives it\<close>

text \<open>
  These definitions follow the packet layouts of the specification, not the code: they are
  what the encoders are compared with.  \<open>overlay p k ws\<close> is the buffer \<open>p\<close> with the
  slots \<open>ws\<close> laid over it from slot \<open>k\<close> on.
\<close>

definition overlay :: "'a list \<Rightarrow> nat \<Rightarrow> 'a list \<Rightarrow> 'a list" where
  "overlay p k ws = take k p @ ws @ drop (k + length ws) p"

definition target_slots :: "byte_order \<Rightarrow> lmk_target list \<Rightarrow> word32 list" where
  "target_slots h ts = concat (map (\<lambda>t. [htonl h (minfree t), htonl h (oom_adj_score t)]) ts)"

definition procprio_slots :: "byte_order \<Rightarrow> lmk_procprio \<Rightarrow> word32 list" where
  "procprio_slots h r = [htonl h (pid r), htonl h (uid r), htonl h (oomadj r), htonl h (ptype r)]"

definition procs_slots :: "byte_order \<Rightarrow> lmk_procprio list \<Rightarrow> word32 list" where
  "procs_slots h rs = concat (map (procprio_slots h) rs)"

text \<open>The \<open>k\<close>-th record of a batch: four slots from slot \<open>4 * k + 1\<close> on.\<close>

definition record_at :: "byte_order \<Rightarrow> packet \<Rightarrow> nat \<Rightarrow> lmk_procprio" where
  "record_at h packet k =
     \<lparr>pid = ntohl h (packet ! (4 * k + 1)), uid = ntohl h (packet ! (4 * k + 2)),
      oomadj = ntohl h (packet ! (4 * k + 3)), ptype = ntohl h (packet ! (4 * k + 4))\<rparr>"

text \<open>The command each operation prepares, as its comment in the header names it.\<close>

fun enc_cmd :: "enc_call \<Rightarrow> lmk_cmd" where
  "enc_cmd (Set_target ts n) = LMK_TARGET"
| "enc_cmd (Set_procprio r) = LMK_PROCPRIO"
| "enc_cmd (Set_procremove r) = LMK_PROCREMOVE"
| "enc_cmd Set_procpurge = LMK_PROCPURGE"
| "enc_cmd (Set_getkillcnt r) = LMK_GETKILLCNT"
| "enc_cmd (Set_getkillcnt_repl k) = LMK_GETKILLCNT"
| "enc_cmd (Set_subscribe e) = LMK_SUBSCRIBE"
| "enc_cmd (Set_prockills a b) = LMK_PROCKILL"
| "enc_cmd Set_update_props = LMK_UPDATE_PROPS"
| "enc_cmd Start_monitoring = LMK_START_MONITORING"
| "enc_cmd (Set_update_props_repl r) = LMK_UPDATE_PROPS"
| "enc_cmd Set_boot_completed_notif = LMK_BOOT_COMPLETED"
| "enc_cmd (Set_boot_completed_notif_repl r) = LMK_BOOT_COMPLETED"
| "enc_cmd (Set_procs_prio params n) = LMK_PROCS_PRIO"

fun payload_slots :: "byte_order \<Rightarrow> enc_call \<Rightarrow> word32 list" where
  "payload_slots h (Set_target ts n) = target_slots h (take n ts)"
| "payload_slots h (Set_procprio r) = procprio_slots h r"
| "payload_slots h (Set_procremove r) = [htonl h (rm_pid r)]"
| "payload_slots h Set_procpurge = []"
| "payload_slots h (Set_getkillcnt r) = [htonl h (min_oomadj r), htonl h (max_oomadj r)]"
| "payload_slots h (Set_getkillcnt_repl k) = [htonl h k]"
| "payload_slots h (Set_subscribe e) = [htonl h e]"
| "payload_slots h (Set_prockills a b) = [htonl h a, htonl h b]"
| "payload_slots h Set_update_props = []"
| "payload_slots h Start_monitoring = []"
| "payload_slots h (Set_update_props_repl r) = [htonl h r]"
| "payload_slots h Set_boot_completed_notif = []"
| "payload_slots h (Set_boot_completed_notif_repl r) = [htonl h r]"
| "payload_slots h (Set_procs_prio params n) = procs_slots h (take (nat n) (procs params))"

definition wire :: "byte_order \<Rightarrow> enc_call \<Rightarrow> word32 list" where
  "wire h c = htonl h (lmk_cmd_val (enc_cmd c)) # payload_slots h c"

text \<open>
  The caller's side of the contract: the count of a variable-length operation does not
  exceed the array it is passed with.
\<close>

fun args_ok :: "enc_call \<Rightarrow> bool" where
  "args_ok (Set_target ts n) = (n \<le> length ts)"
| "args_ok (Set_procs_prio params n) = (n \<le> int (length (procs params)))"
| "args_ok c = True"

section \<open>Properties\<close>

subsection \<open>Byte order\<close>

lemma bit_bswap32:
  "bit (bswap32 w) n \<longleftrightarrow>
     (n < 8 \<and> bit w (n + 24)) \<or> (8 \<le> n \<and> n < 16 \<and> bit w (n + 8))
     \<or> (16 \<le> n \<and> n < 24 \<and> bit w (n - 8)) \<or> (24 \<le> n \<and> n < 32 \<and> bit w (n - 24))"
  unfolding bswap32_def
  apply (simp add: bit_simps)
  apply (cases "n < 8"; cases "n < 16"; cases "n < 24"; cases "n < 32"; simp add: add.commute)
    apply (auto dest: bit_imp_le_length)
  done

lemma bswap32_bswap32: "bswap32 (bswap32 w) = w"
proof (rule bit_word_eqI)
  fix n assume "n < LENGTH(32)"
  then have n: "n < 32" by simp
  consider "n < 8" | "8 \<le> n" "n < 16" | "16 \<le> n" "n < 24" | "24 \<le> n" "n < 32"
    using n by linarith
  then show "bit (bswap32 (bswap32 w)) n = bit w n"
    by cases (auto simp add: bit_bswap32)
qed

lemma ntohl_htonl: "ntohl h (htonl h w) = w"
  by (cases h) (simp_all add: bswap32_bswap32)

subsection \<open>Buffers and loops\<close>

lemma overlay_Nil: "overlay p k [] = p"
  by (simp add: overlay_def)

lemma length_overlay: "k + length ws \<le> length p \<Longrightarrow> length (overlay p k ws) = length p"
  by (simp add: overlay_def)

lemma overlay_snoc:
  assumes "k + length ws < length p"
  shows "(overlay p k ws)[k + length ws := v] = overlay p k (ws @ [v])"
proof -
  have "drop (k + length ws) p = p ! (k + length ws) # drop (Suc (k + length ws)) p"
    using assms by (simp add: Cons_nth_drop_Suc)
  then show ?thesis
    using assms by (simp add: overlay_def list_update_append)
qed

lemma pk_write_overlay:
  assumes "0 \<le> i" "nat i = k + length ws" "k + length ws < length p"
  shows "pk_write (overlay p k ws) i v = Some (overlay p k (ws @ [v]))"
  using assms overlay_snoc [of k ws p v] by (simp add: pk_write_def length_overlay)

lemma pk_write_start:
  assumes "0 \<le> i" "nat i < length p"
  shows "pk_write p i v = Some (overlay p (nat i) [v])"
  using pk_write_overlay [of i "nat i" "[]" p v] assms by (simp add: overlay_Nil)

lemma pk_write_None: "i < 0 \<or> int (length p) \<le> i \<Longrightarrow> pk_write p i v = None"
  by (auto simp: pk_write_def)

lemma pk_read_overlay:
  assumes "0 \<le> i" "k \<le> nat i" "nat i < k + length ws" "k + length ws \<le> length p"
  shows "pk_read (overlay p k ws) i = Some (ws ! (nat i - k))"
  using assms by (auto simp: pk_read_def length_overlay overlay_def nth_append)

lemma pk_write_0: "p \<noteq> [] \<Longrightarrow> pk_write p 0 v = Some (overlay p 0 [v])"
  using pk_write_start [of 0 p v] by simp

lemma set_procprio_overlay:
  assumes "5 \<le> length p"
  shows "lmkd_pack_set_procprio h p params =
    Some (overlay p 0 [htonl h (lmk_cmd_val LMK_PROCPRIO), htonl h (pid params), htonl h (uid params),
       htonl h (oomadj params), htonl h (ptype params)], 20)"
proof -
  from assms have "p \<noteq> []" by auto
  with assms show ?thesis
    by (simp add: lmkd_pack_set_procprio_def pk_write_0 pk_write_overlay sizeof_int_def)
qed

lemma length_target_slots: "length (target_slots h ts) = 2 * length ts"
  by (induction ts) (simp_all add: target_slots_def)

lemma length_procs_slots: "length (procs_slots h rs) = 4 * length rs"
  by (induction rs) (simp_all add: procs_slots_def procprio_slots_def)

lemma target_slots_Cons:
  "target_slots h (t # ts) = htonl h (minfree t) # htonl h (oom_adj_score t) # target_slots h ts"
  by (simp add: target_slots_def)

lemma procs_slots_Cons:
  "procs_slots h (r # rs) =
     htonl h (pid r) # htonl h (uid r) # htonl h (oomadj r) # htonl h (ptype r) # procs_slots h rs"
  by (simp add: procs_slots_def procprio_slots_def)

lemma set_target_loop_overlay:
  assumes "n \<le> length ts" "0 \<le> idx" "nat idx = k + length ws"
    and "k + length ws + 2 * n \<le> length p"
  shows "set_target_loop h (overlay p k ws) ts n idx =
           Some (overlay p k (ws @ target_slots h (take n ts)), idx + 2 * int n)"
  using assms
proof (induction h "overlay p k ws" ts n idx arbitrary: ws rule: set_target_loop.induct)
  case (1 h targets idx)
  then show ?case by (simp add: target_slots_def)
next
  case (2 h n idx)
  then show ?case by simp
next
  case (3 h t targets n idx)
  let ?a = "htonl h (minfree t)" and ?b = "htonl h (oom_adj_score t)"
  have w1: "pk_write (overlay p k ws) idx ?a = Some (overlay p k (ws @ [?a]))"
    using 3 by (intro pk_write_overlay) auto
  have w2: "pk_write (overlay p k (ws @ [?a])) (idx + 1) ?b = Some (overlay p k ((ws @ [?a]) @ [?b]))"
    using 3 by (intro pk_write_overlay) auto
  have "set_target_loop h (overlay p k ((ws @ [?a]) @ [?b])) targets n (idx + 2) =
      Some (overlay p k (((ws @ [?a]) @ [?b]) @ target_slots h (take n targets)), idx + 2 + 2 * int n)"
    using 3(2-) by (intro 3(1) [OF w1 w2]) auto
  then show ?case
    by (simp add: w1 w2 target_slots_Cons)
qed

lemma procs_get_in:
  "0 \<le> i \<Longrightarrow> i < int (length (procs params)) \<Longrightarrow> procs_get params i = Some (procs params ! nat i)"
  by (simp add: procs_get_def)

lemma set_procs_prio_loop_overlay:
  assumes "0 \<le> i" "i \<le> cnt" "cnt \<le> int (length (procs params))"
    and "0 \<le> packetIdx" "nat packetIdx = k + length ws"
    and "k + length ws + 4 * nat (cnt - i) \<le> length p"
  shows "set_procs_prio_loop h (overlay p k ws) params cnt i packetIdx =
           Some (overlay p k (ws @ procs_slots h (take (nat (cnt - i)) (drop (nat i) (procs params)))),
                 packetIdx + 4 * (cnt - i))"
  using assms
proof (induction h "overlay p k ws" params cnt i packetIdx arbitrary: ws
    rule: set_procs_prio_loop.induct)
  case (1 h params cnt i packetIdx)
  show ?case
  proof (cases "i < cnt")
    case False
    with 1 have "i = cnt" by simp
    then show ?thesis
      by (simp add: set_procs_prio_loop.simps [of h "overlay p k ws"] procs_slots_def)
  next
    case True
    let ?r = "procs params ! nat i"
    let ?a = "htonl h (pid ?r)" and ?b = "htonl h (uid ?r)"
      and ?c = "htonl h (oomadj ?r)" and ?d = "htonl h (ptype ?r)"
    let ?w1 = "ws @ [?a]"
    let ?w2 = "ws @ [?a, ?b]"
    let ?w3 = "ws @ [?a, ?b, ?c]"
    let ?w4 = "ws @ [?a, ?b, ?c, ?d]"
    have r: "procs_get params i = Some ?r"
      using 1 True by (intro procs_get_in) auto
    have w1: "pk_write (overlay p k ws) packetIdx ?a = Some (overlay p k ?w1)"
      using 1 True by (intro pk_write_overlay) auto
    have w2: "pk_write (overlay p k ?w1) (packetIdx + 1) ?b = Some (overlay p k ?w2)"
      using 1 True pk_write_overlay [of "packetIdx + 1" k ?w1 p ?b] by simp
    have w3: "pk_write (overlay p k ?w2) (packetIdx + 2) ?c = Some (overlay p k ?w3)"
      using 1 True pk_write_overlay [of "packetIdx + 2" k ?w2 p ?c] by simp
    have w4: "pk_write (overlay p k ?w3) (packetIdx + 3) ?d = Some (overlay p k ?w4)"
      using 1 True pk_write_overlay [of "packetIdx + 3" k ?w3 p ?d] by simp
    have rec: "set_procs_prio_loop h (overlay p k ?w4) params cnt (i + 1) (packetIdx + 4) =
        Some (overlay p k (?w4 @ procs_slots h (take (nat (cnt - (i + 1))) (drop (nat (i + 1)) (procs params)))),
              packetIdx + 4 + 4 * (cnt - (i + 1)))"
      using 1(2-) True by (intro 1(1) [OF True r w1 w2 w3 w4]) auto
    have n: "nat (cnt - i) = Suc (nat (cnt - (i + 1)))"
      using True by simp
    have d: "drop (nat i) (procs params) = ?r # drop (nat (i + 1)) (procs params)"
      using 1 True by (simp add: Cons_nth_drop_Suc nat_add_distrib)
    show ?thesis
      by (subst set_procs_prio_loop.simps) (simp add: True r w1 w2 w3 w4 rec n d procs_slots_Cons)
  qed
qed

lemma pk_read_in:
  "0 \<le> i \<Longrightarrow> i < int (length p) \<Longrightarrow> pk_read p i = Some (p ! nat i)"
  by (simp add: pk_read_def)

lemma procprio_all_fields:
  "(r :: lmk_procprio)\<lparr>pid := a, uid := b, oomadj := c, ptype := d\<rparr> =
     \<lparr>pid = a, uid = b, oomadj = c, ptype = d\<rparr>"
  by (cases r) simp

lemma get_procs_prio_loop_step:
  assumes "procs_idx < procs_count" "0 \<le> procs_idx" "procs_idx < int (length (procs params))"
    and "0 \<le> packetIdx" "packetIdx + 3 < int (length packet)"
  shows "get_procs_prio_loop h packet procs_count procs_idx packetIdx params =
     get_procs_prio_loop h packet procs_count (procs_idx + 1) (packetIdx + 4)
       (params\<lparr>procs := (procs params)[nat procs_idx :=
          \<lparr>pid = ntohl h (packet ! nat packetIdx), uid = ntohl h (packet ! nat (packetIdx + 1)),
           oomadj = ntohl h (packet ! nat (packetIdx + 2)),
           ptype = ntohl h (packet ! nat (packetIdx + 3))\<rparr>]\<rparr>)"
  using assms
  by (subst get_procs_prio_loop.simps) (simp add: pk_read_in procs_set_def procprio_all_fields)

lemma get_procs_prio_loop_fault:
  assumes "procs_idx < procs_count"
    and "procs_idx < 0 \<or> int (length (procs params)) \<le> procs_idx
         \<or> packetIdx < 0 \<or> int (length packet) \<le> packetIdx + 3"
  shows "get_procs_prio_loop h packet procs_count procs_idx packetIdx params = None"
  using assms
  by (subst get_procs_prio_loop.simps)
     (auto simp add: pk_read_def procs_set_def Option.bind_eq_None_conv split: if_splits)

lemma get_procs_prio_loop_done:
  "\<not> procs_idx < procs_count \<Longrightarrow>
     get_procs_prio_loop h packet procs_count procs_idx packetIdx params = Some params"
  by (subst get_procs_prio_loop.simps) simp

lemma get_procs_prio_loop_Some:
  assumes "0 \<le> procs_idx" "procs_idx \<le> procs_count"
    and "procs_count \<le> int (length (procs params))"
    and "packetIdx = 4 * procs_idx + 1" "4 * procs_count < int (length packet)"
  shows "get_procs_prio_loop h packet procs_count procs_idx packetIdx params =
     Some (params\<lparr>procs := take (nat procs_idx) (procs params)
        @ map (record_at h packet) [nat procs_idx..<nat procs_count]
        @ drop (nat procs_count) (procs params)\<rparr>)"
  using assms
proof (induction "nat (procs_count - procs_idx)" arbitrary: procs_idx packetIdx params)
  case 0
  then have "procs_idx = procs_count" by simp
  then show ?case
    by (simp add: get_procs_prio_loop_done)
next
  case (Suc n)
  then have True: "procs_idx < procs_count" by linarith
  let ?i = "nat procs_idx"
  let ?r = "record_at h packet ?i"
  let ?q = "params\<lparr>procs := (procs params)[?i := ?r]\<rparr>"
  have idx: "nat packetIdx = 4 * ?i + 1" "nat (packetIdx + 1) = 4 * ?i + 2"
      "nat (packetIdx + 2) = 4 * ?i + 3" "nat (packetIdx + 3) = 4 * ?i + 4"
    using Suc.prems by (simp_all add: nat_add_distrib nat_mult_distrib)
  have step: "get_procs_prio_loop h packet procs_count procs_idx packetIdx params =
      get_procs_prio_loop h packet procs_count (procs_idx + 1) (packetIdx + 4) ?q"
    unfolding record_at_def idx [symmetric]
    by (rule get_procs_prio_loop_step) (use Suc.prems True in auto)
  have rec: "get_procs_prio_loop h packet procs_count (procs_idx + 1) (packetIdx + 4) ?q =
     Some (?q\<lparr>procs := take (nat (procs_idx + 1)) (procs ?q)
      @ map (record_at h packet) [nat (procs_idx + 1)..<nat procs_count]
      @ drop (nat procs_count) (procs ?q)\<rparr>)"
    using Suc.prems Suc.hyps(2) True by (intro Suc.hyps(1)) auto
  have t: "take (nat (procs_idx + 1)) ((procs params)[?i := ?r]) = take ?i (procs params) @ [?r]"
    using Suc.prems True by (simp add: nat_add_distrib take_Suc_conv_app_nth)
  have d: "drop (nat procs_count) ((procs params)[?i := ?r]) = drop (nat procs_count) (procs params)"
    using Suc.prems True by simp
  have u: "[?i..<nat procs_count] = ?i # [nat (procs_idx + 1)..<nat procs_count]"
    using Suc.prems True by (simp add: nat_add_distrib upt_conv_Cons)
  show ?case
    by (simp add: step rec t d u)
qed

lemma get_procs_prio_loop_None_iff:
  assumes "0 \<le> procs_idx" "0 \<le> packetIdx"
  shows "get_procs_prio_loop h packet procs_count procs_idx packetIdx params = None \<longleftrightarrow>
     procs_idx < procs_count \<and>
       (int (length packet) < packetIdx + 4 * (procs_count - procs_idx)
        \<or> int (length (procs params)) < procs_count)"
  using assms
proof (induction "nat (procs_count - procs_idx)" arbitrary: procs_idx packetIdx params)
  case 0
  then have "\<not> procs_idx < procs_count" by simp
  then show ?case
    by (simp add: get_procs_prio_loop_done)
next
  case (Suc n)
  then have True: "procs_idx < procs_count" by linarith
  show ?case
  proof (cases "int (length (procs params)) \<le> procs_idx \<or> int (length packet) \<le> packetIdx + 3")
    case True
    then have "get_procs_prio_loop h packet procs_count procs_idx packetIdx params = None"
      using \<open>procs_idx < procs_count\<close> by (intro get_procs_prio_loop_fault) auto
    moreover have "int (length packet) < packetIdx + 4 * (procs_count - procs_idx)
        \<or> int (length (procs params)) < procs_count"
      using True \<open>procs_idx < procs_count\<close> by auto
    ultimately show ?thesis
      using \<open>procs_idx < procs_count\<close> by simp
  next
    case False
    let ?q = "params\<lparr>procs := (procs params)[nat procs_idx :=
          \<lparr>pid = ntohl h (packet ! nat packetIdx), uid = ntohl h (packet ! nat (packetIdx + 1)),
           oomadj = ntohl h (packet ! nat (packetIdx + 2)),
           ptype = ntohl h (packet ! nat (packetIdx + 3))\<rparr>]\<rparr>"
    have step: "get_procs_prio_loop h packet procs_count procs_idx packetIdx params =
        get_procs_prio_loop h packet procs_count (procs_idx + 1) (packetIdx + 4) ?q"
      by (rule get_procs_prio_loop_step) (use Suc.prems True False in auto)
    have rec: "get_procs_prio_loop h packet procs_count (procs_idx + 1) (packetIdx + 4) ?q = None \<longleftrightarrow>
       procs_idx + 1 < procs_count \<and>
       (int (length packet) < packetIdx + 4 + 4 * (procs_count - (procs_idx + 1))
        \<or> int (length (procs ?q)) < procs_count)"
      using Suc.prems Suc.hyps(2) True by (intro Suc.hyps(1)) auto
    show ?thesis
      unfolding step rec using True False by auto
  qed
qed


subsection \<open>The field-count check of the batch decoder\<close>

lemma field_count_check:
  "(field_count < LMK_PROCPRIO_FIELD_COUNT \<or> field_count smod LMK_PROCPRIO_FIELD_COUNT \<noteq> 0)
     \<longleftrightarrow> (field_count < 4 \<or> \<not> 4 dvd field_count)"
proof (cases "field_count < 4")
  case True
  then show ?thesis by (simp add: LMK_PROCPRIO_FIELD_COUNT_def)
next
  case False
  then have "field_count smod 4 = field_count mod 4"
    by (intro smod_mod_positive) auto
  with False show ?thesis
    by (simp add: LMK_PROCPRIO_FIELD_COUNT_def dvd_eq_mod_eq_0)
qed

lemma procs_count_div:
  "4 \<le> field_count \<Longrightarrow> field_count sdiv LMK_PROCPRIO_FIELD_COUNT = field_count div 4"
  by (simp add: LMK_PROCPRIO_FIELD_COUNT_def signed_divide_int_eq_divide_int sgn_if)

lemma get_procs_prio_invalid:
  "field_count < 4 \<or> \<not> 4 dvd field_count \<Longrightarrow>
     lmkd_pack_get_procs_prio h packet params field_count = Some (- 1, params)"
  using field_count_check [of field_count] by (simp add: lmkd_pack_get_procs_prio_def)

lemma get_procs_prio_valid:
  assumes "4 \<le> field_count" "4 dvd field_count"
  shows "lmkd_pack_get_procs_prio h packet params field_count =
     map_option (Pair (field_count div 4))
       (get_procs_prio_loop h packet (field_count div 4) 0 1 params)"
proof -
  have "\<not> (field_count < LMK_PROCPRIO_FIELD_COUNT \<or> field_count smod LMK_PROCPRIO_FIELD_COUNT \<noteq> 0)"
    using assms field_count_check [of field_count] by simp
  then show ?thesis
    using assms(1)
    by (cases "get_procs_prio_loop h packet (field_count div 4) 0 1 params")
       (simp_all add: lmkd_pack_get_procs_prio_def procs_count_div Let_def)
qed

lemma get_procs_prio_ok:
  assumes "4 \<le> field_count" "4 dvd field_count"
    and "field_count < int (length packet)" "field_count div 4 \<le> int (length (procs params))"
  shows "lmkd_pack_get_procs_prio h packet params field_count =
     Some (field_count div 4,
           params\<lparr>procs := map (record_at h packet) [0..<nat (field_count div 4)]
              @ drop (nat (field_count div 4)) (procs params)\<rparr>)"
proof -
  have "4 * (field_count div 4) = field_count"
    using assms(2) by simp
  then have "get_procs_prio_loop h packet (field_count div 4) 0 1 params =
     Some (params\<lparr>procs := take (nat 0) (procs params)
        @ map (record_at h packet) [nat 0..<nat (field_count div 4)]
        @ drop (nat (field_count div 4)) (procs params)\<rparr>)"
    using assms by (intro get_procs_prio_loop_Some) auto
  then show ?thesis
    by (simp add: get_procs_prio_valid [OF assms(1,2)])
qed

lemma get_procs_prio_fault_iff:
  assumes "4 \<le> field_count" "4 dvd field_count"
  shows "lmkd_pack_get_procs_prio h packet params field_count = None \<longleftrightarrow>
     int (length packet) \<le> field_count \<or> int (length (procs params)) < field_count div 4"
proof -
  have "4 * (field_count div 4) = field_count"
    using assms(2) by simp
  moreover have "0 < field_count div 4"
    using assms by (simp add: pos_imp_zdiv_pos_iff)
  ultimately show ?thesis
    using get_procs_prio_loop_None_iff [of 0 1 h packet "field_count div 4" params]
    by (auto simp add: get_procs_prio_valid [OF assms])
qed

subsection \<open>Every encoder lays its wire image over the buffer\<close>

lemma set_target_overlay:
  assumes "n \<le> length ts" "2 * n + 1 \<le> length p"
  shows "lmkd_pack_set_target h p ts n =
     Some (overlay p 0 (htonl h (lmk_cmd_val LMK_TARGET) # target_slots h (take n ts)),
           (2 * n + 1) * sizeof_int)"
proof -
  from assms have ne: "p \<noteq> []" by auto
  have "set_target_loop h (overlay p 0 [htonl h (lmk_cmd_val LMK_TARGET)]) ts n 1 =
      Some (overlay p 0 ([htonl h (lmk_cmd_val LMK_TARGET)] @ target_slots h (take n ts)),
            1 + 2 * int n)"
    using assms by (intro set_target_loop_overlay) auto
  moreover have "nat (1 + 2 * int n) = 2 * n + 1"
    by (simp add: nat_add_distrib nat_mult_distrib)
  ultimately show ?thesis
    using ne by (simp add: lmkd_pack_set_target_def pk_write_0)
qed

lemma set_procs_prio_overlay:
  assumes "0 \<le> n" "n \<le> int (length (procs params))" "4 * nat n + 1 \<le> length p"
  shows "lmkd_pack_set_procs_prio h p params n =
     Some (overlay p 0 (htonl h (lmk_cmd_val LMK_PROCS_PRIO) # procs_slots h (take (nat n) (procs params))),
           (4 * nat n + 1) * sizeof_int)"
proof -
  from assms have ne: "p \<noteq> []" by auto
  have "set_procs_prio_loop h (overlay p 0 [htonl h (lmk_cmd_val LMK_PROCS_PRIO)]) params n 0 1 =
      Some (overlay p 0 ([htonl h (lmk_cmd_val LMK_PROCS_PRIO)]
              @ procs_slots h (take (nat (n - 0)) (drop (nat 0) (procs params)))),
            1 + 4 * (n - 0))"
    using assms by (intro set_procs_prio_loop_overlay) auto
  moreover have "nat (1 + 4 * n) = 4 * nat n + 1"
    using assms(1) by (simp add: nat_add_distrib nat_mult_distrib)
  ultimately show ?thesis
    using ne by (simp add: lmkd_pack_set_procs_prio_def pk_write_0)
qed

lemma set_procs_prio_nonpos:
  assumes "n \<le> 0" "p \<noteq> []"
  shows "lmkd_pack_set_procs_prio h p params n =
     Some (overlay p 0 [htonl h (lmk_cmd_val LMK_PROCS_PRIO)], sizeof_int)"
  using assms
  by (simp add: lmkd_pack_set_procs_prio_def pk_write_0 set_procs_prio_loop.simps
     )

lemma set_fixed_overlay:
  "2 \<le> length p \<Longrightarrow> lmkd_pack_set_procremove h p r =
     Some (overlay p 0 [htonl h (lmk_cmd_val LMK_PROCREMOVE), htonl h (rm_pid r)], 2 * sizeof_int)"
  "1 \<le> length p \<Longrightarrow> lmkd_pack_set_procpurge h p =
     Some (overlay p 0 [htonl h (lmk_cmd_val LMK_PROCPURGE)], sizeof_int)"
  "3 \<le> length p \<Longrightarrow> lmkd_pack_set_getkillcnt h p g =
     Some (overlay p 0 [htonl h (lmk_cmd_val LMK_GETKILLCNT), htonl h (min_oomadj g),
       htonl h (max_oomadj g)], 3 * sizeof_int)"
  "2 \<le> length p \<Longrightarrow> lmkd_pack_set_getkillcnt_repl h p k =
     Some (overlay p 0 [htonl h (lmk_cmd_val LMK_GETKILLCNT), htonl h k], 2 * sizeof_int)"
  "2 \<le> length p \<Longrightarrow> lmkd_pack_set_subscribe h p e =
     Some (overlay p 0 [htonl h (lmk_cmd_val LMK_SUBSCRIBE), htonl h e], 2 * sizeof_int)"
  "3 \<le> length p \<Longrightarrow> lmkd_pack_set_prockills h p a b =
     Some (overlay p 0 [htonl h (lmk_cmd_val LMK_PROCKILL), htonl h a, htonl h b], 3 * sizeof_int)"
  "1 \<le> length p \<Longrightarrow> lmkd_pack_set_update_props h p =
     Some (overlay p 0 [htonl h (lmk_cmd_val LMK_UPDATE_PROPS)], sizeof_int)"
  "1 \<le> length p \<Longrightarrow> lmkd_pack_start_monitoring h p =
     Some (overlay p 0 [htonl h (lmk_cmd_val LMK_START_MONITORING)], sizeof_int)"
  "2 \<le> length p \<Longrightarrow> lmkd_pack_set_update_props_repl h p u =
     Some (overlay p 0 [htonl h (lmk_cmd_val LMK_UPDATE_PROPS), htonl h u], 2 * sizeof_int)"
  "1 \<le> length p \<Longrightarrow> lmkd_pack_set_boot_completed_notif h p =
     Some (overlay p 0 [htonl h (lmk_cmd_val LMK_BOOT_COMPLETED)], sizeof_int)"
  "2 \<le> length p \<Longrightarrow> lmkd_pack_set_boot_completed_notif_repl h p u =
     Some (overlay p 0 [htonl h (lmk_cmd_val LMK_BOOT_COMPLETED), htonl h u], 2 * sizeof_int)"
proof -
  have ne: "p \<noteq> []" if "1 \<le> length p" using that by auto
  show "2 \<le> length p \<Longrightarrow> lmkd_pack_set_procremove h p r =
     Some (overlay p 0 [htonl h (lmk_cmd_val LMK_PROCREMOVE), htonl h (rm_pid r)], 2 * sizeof_int)"
    using ne by (simp add: lmkd_pack_set_procremove_def pk_write_0 pk_write_overlay)
  show "1 \<le> length p \<Longrightarrow> lmkd_pack_set_procpurge h p =
     Some (overlay p 0 [htonl h (lmk_cmd_val LMK_PROCPURGE)], sizeof_int)"
    using ne by (simp add: lmkd_pack_set_procpurge_def pk_write_0)
  show "3 \<le> length p \<Longrightarrow> lmkd_pack_set_getkillcnt h p g =
     Some (overlay p 0 [htonl h (lmk_cmd_val LMK_GETKILLCNT), htonl h (min_oomadj g),
       htonl h (max_oomadj g)], 3 * sizeof_int)"
    using ne by (simp add: lmkd_pack_set_getkillcnt_def pk_write_0 pk_write_overlay)
  show "2 \<le> length p \<Longrightarrow> lmkd_pack_set_getkillcnt_repl h p k =
     Some (overlay p 0 [htonl h (lmk_cmd_val LMK_GETKILLCNT), htonl h k], 2 * sizeof_int)"
    using ne by (simp add: lmkd_pack_set_getkillcnt_repl_def pk_write_0 pk_write_overlay)
  show "2 \<le> length p \<Longrightarrow> lmkd_pack_set_subscribe h p e =
     Some (overlay p 0 [htonl h (lmk_cmd_val LMK_SUBSCRIBE), htonl h e], 2 * sizeof_int)"
    using ne by (simp add: lmkd_pack_set_subscribe_def pk_write_0 pk_write_overlay)
  show "3 \<le> length p \<Longrightarrow> lmkd_pack_set_prockills h p a b =
     Some (overlay p 0 [htonl h (lmk_cmd_val LMK_PROCKILL), htonl h a, htonl h b], 3 * sizeof_int)"
    using ne by (simp add: lmkd_pack_set_prockills_def pk_write_0 pk_write_overlay)
  show "1 \<le> length p \<Longrightarrow> lmkd_pack_set_update_props h p =
     Some (overlay p 0 [htonl h (lmk_cmd_val LMK_UPDATE_PROPS)], sizeof_int)"
    using ne by (simp add: lmkd_pack_set_update_props_def pk_write_0)
  show "1 \<le> length p \<Longrightarrow> lmkd_pack_start_monitoring h p =
     Some (overlay p 0 [htonl h (lmk_cmd_val LMK_START_MONITORING)], sizeof_int)"
    using ne by (simp add: lmkd_pack_start_monitoring_def pk_write_0)
  show "2 \<le> length p \<Longrightarrow> lmkd_pack_set_update_props_repl h p u =
     Some (overlay p 0 [htonl h (lmk_cmd_val LMK_UPDATE_PROPS), htonl h u], 2 * sizeof_int)"
    using ne by (simp add: lmkd_pack_set_update_props_repl_def pk_write_0 pk_write_overlay)
  show "1 \<le> length p \<Longrightarrow> lmkd_pack_set_boot_completed_notif h p =
     Some (overlay p 0 [htonl h (lmk_cmd_val LMK_BOOT_COMPLETED)], sizeof_int)"
    using ne by (simp add: lmkd_pack_set_boot_completed_notif_def pk_write_0)
  show "2 \<le> length p \<Longrightarrow> lmkd_pack_set_boot_completed_notif_repl h p u =
     Some (overlay p 0 [htonl h (lmk_cmd_val LMK_BOOT_COMPLETED), htonl h u], 2 * sizeof_int)"
    using ne by (simp add: lmkd_pack_set_boot_completed_notif_repl_def pk_write_0 pk_write_overlay)
qed

lemma encode_wire:
  assumes "args_ok c" "length (wire h c) \<le> length p"
  shows "encode h p c = Some (overlay p 0 (wire h c), length (wire h c) * sizeof_int)"
proof (cases c)
  case (Set_target ts n)
  then show ?thesis
    using assms set_target_overlay [of n ts p h]
    by (simp add: wire_def length_target_slots)
next
  case (Set_procprio r)
  then show ?thesis
    using assms set_procprio_overlay [of p h r]
    by (simp add: wire_def procprio_slots_def sizeof_int_def)
next
  case (Set_procs_prio params n)
  show ?thesis
  proof (cases "0 \<le> n")
    case True
    have le: "nat n \<le> length (procs params)"
      using assms(1) Set_procs_prio by simp
    show ?thesis
      using Set_procs_prio True le assms set_procs_prio_overlay [of n params p h]
      by (simp add: wire_def length_procs_slots)
  next
    case False
    have "p \<noteq> []"
      using assms(2) by (auto simp add: wire_def)
    then show ?thesis
      using False Set_procs_prio set_procs_prio_nonpos [of n p h params]
      by (simp add: wire_def procs_slots_def)
  qed
qed (use assms in \<open>simp_all add: wire_def set_fixed_overlay\<close>)

subsection \<open>Where the encoders and decoders leave the buffer\<close>

lemma ctrl_packet_slots: "CTRL_PACKET_SLOTS = 13"
  by (simp add: CTRL_PACKET_SLOTS_def CTRL_PACKET_MAX_SIZE_def MAX_TARGETS_def sizeof_int_def)

lemma procs_prio_max_record_count: "PROCS_PRIO_MAX_RECORD_COUNT = 3"
  by (simp add: PROCS_PRIO_MAX_RECORD_COUNT_def CTRL_PACKET_MAX_SIZE_def MAX_TARGETS_def
      sizeof_int_def LMK_PROCPRIO_SIZE_def LMK_PROCPRIO_FIELD_COUNT_def)

lemma overlay_0: "overlay p 0 ws = ws @ drop (length ws) p"
  by (simp add: overlay_def)


lemma pk_write_length: "pk_write p i v = Some p' \<Longrightarrow> length p' = length p"
  by (auto simp: pk_write_def split: if_splits)

lemma pk_write_bounds: "pk_write p i v = Some p' \<Longrightarrow> 0 \<le> i \<and> i < int (length p)"
  by (auto simp: pk_write_def split: if_splits)

lemma set_target_loop_None:
  assumes "length ts < n \<or> int (length p) < idx + 2 * int n" "idx \<le> int (length p)"
  shows "set_target_loop h p ts n idx = None"
  using assms
proof (induction h p ts n idx rule: set_target_loop.induct)
  case (1 h packet targets idx)
  then show ?case by simp
next
  case (2 h packet n idx)
  then show ?case by simp
next
  case (3 h packet t targets n idx)
  show ?case
  proof (cases "pk_write packet idx (htonl h (minfree t))")
    case None
    then show ?thesis by simp
  next
    case (Some p1)
    note p1 = this
    show ?thesis
    proof (cases "pk_write p1 (idx + 1) (htonl h (oom_adj_score t))")
      case None
      then show ?thesis by (simp add: p1)
    next
      case (Some p2)
      have "length p2 = length packet" "idx + 1 < int (length packet)"
        using p1 Some pk_write_bounds [OF Some] by (simp_all add: pk_write_length)
      then have "set_target_loop h p2 targets n (idx + 2) = None"
        using "3.prems" by (intro "3.IH" [OF p1 Some]) auto
      then show ?thesis by (simp add: p1 Some)
    qed
  qed
qed

lemma set_target_None:
  assumes "length ts < n \<or> length p < 2 * n + 1"
  shows "lmkd_pack_set_target h p ts n = None"
proof (cases "pk_write p 0 (htonl h (lmk_cmd_val LMK_TARGET))")
  case None
  then show ?thesis by (simp add: lmkd_pack_set_target_def)
next
  case (Some p0)
  have "length p0 = length p"
    using Some by (simp add: pk_write_length)
  moreover have "1 \<le> int (length p)"
    using pk_write_bounds [OF Some] by linarith
  ultimately have "set_target_loop h p0 ts n 1 = None"
    using assms by (intro set_target_loop_None) auto
  then show ?thesis
    using Some by (simp add: lmkd_pack_set_target_def)
qed

lemma set_procs_prio_loop_None:
  assumes "0 \<le> i" "i < cnt" "0 \<le> packetIdx"
    and "int (length (procs params)) < cnt \<or> int (length p) < packetIdx + 4 * (cnt - i)"
  shows "set_procs_prio_loop h p params cnt i packetIdx = None"
  using assms
proof (induction "nat (cnt - i)" arbitrary: i packetIdx p)
  case 0
  then show ?case by simp
next
  case (Suc n)
  show ?case
  proof (cases "int (length (procs params)) \<le> i \<or> int (length p) < packetIdx + 4")
    case True
    then show ?thesis
      using Suc.prems
      by (subst set_procs_prio_loop.simps)
         (auto simp add: procs_get_def pk_write_def Option.bind_eq_None_conv split: if_splits)
  next
    case False
    let ?r = "procs params ! nat i"
    let ?p4 = "p[nat packetIdx := htonl h (pid ?r), nat (packetIdx + 1) := htonl h (uid ?r),
        nat (packetIdx + 2) := htonl h (oomadj ?r), nat (packetIdx + 3) := htonl h (ptype ?r)]"
    have step: "set_procs_prio_loop h p params cnt i packetIdx =
        set_procs_prio_loop h ?p4 params cnt (i + 1) (packetIdx + 4)"
      using Suc.prems False
      by (subst set_procs_prio_loop.simps) (simp add: procs_get_def pk_write_def)
    have "i + 1 < cnt"
      using Suc.prems False by auto
    then have "set_procs_prio_loop h ?p4 params cnt (i + 1) (packetIdx + 4) = None"
      using Suc.prems Suc.hyps(2) False by (intro Suc.hyps(1)) auto
    then show ?thesis
      by (simp add: step)
  qed
qed

lemma set_procs_prio_None:
  assumes "0 < n" "int (length (procs params)) < n \<or> int (length p) < 4 * n + 1"
  shows "lmkd_pack_set_procs_prio h p params n = None"
proof (cases "pk_write p 0 (htonl h (lmk_cmd_val LMK_PROCS_PRIO))")
  case None
  then show ?thesis by (simp add: lmkd_pack_set_procs_prio_def)
next
  case (Some p0)
  have "length p0 = length p"
    using Some by (simp add: pk_write_length)
  then have "set_procs_prio_loop h p0 params n 0 1 = None"
    using assms by (intro set_procs_prio_loop_None) auto
  then show ?thesis
    using Some by (simp add: lmkd_pack_set_procs_prio_def)
qed

lemma set_fixed_None:
  "length p < 5 \<Longrightarrow> lmkd_pack_set_procprio h p r = None"
  "length p < 2 \<Longrightarrow> lmkd_pack_set_procremove h p rm = None"
  "length p < 1 \<Longrightarrow> lmkd_pack_set_procpurge h p = None"
  "length p < 3 \<Longrightarrow> lmkd_pack_set_getkillcnt h p g = None"
  "length p < 2 \<Longrightarrow> lmkd_pack_set_getkillcnt_repl h p k = None"
  "length p < 2 \<Longrightarrow> lmkd_pack_set_subscribe h p e = None"
  "length p < 3 \<Longrightarrow> lmkd_pack_set_prockills h p a b = None"
  "length p < 1 \<Longrightarrow> lmkd_pack_set_update_props h p = None"
  "length p < 1 \<Longrightarrow> lmkd_pack_start_monitoring h p = None"
  "length p < 2 \<Longrightarrow> lmkd_pack_set_update_props_repl h p u = None"
  "length p < 1 \<Longrightarrow> lmkd_pack_set_boot_completed_notif h p = None"
  "length p < 2 \<Longrightarrow> lmkd_pack_set_boot_completed_notif_repl h p u = None"
  by (auto simp add: lmkd_pack_set_procprio_def lmkd_pack_set_procremove_def
      lmkd_pack_set_procpurge_def lmkd_pack_set_getkillcnt_def lmkd_pack_set_getkillcnt_repl_def
      lmkd_pack_set_subscribe_def lmkd_pack_set_prockills_def lmkd_pack_set_update_props_def
      lmkd_pack_start_monitoring_def lmkd_pack_set_update_props_repl_def
      lmkd_pack_set_boot_completed_notif_def lmkd_pack_set_boot_completed_notif_repl_def
      pk_write_def Option.bind_eq_None_conv)

lemma encode_None:
  assumes "\<not> (args_ok c \<and> length (wire h c) \<le> length p)"
  shows "encode h p c = None"
proof (cases c)
  case (Set_target ts n)
  have "length ts < n \<or> length p < 2 * n + 1"
    using assms Set_target by (cases "n \<le> length ts") (auto simp add: wire_def length_target_slots)
  then show ?thesis
    using Set_target by (simp add: set_target_None)
next
  case (Set_procs_prio params n)
  show ?thesis
  proof (cases "0 < n")
    case True
    have "int (length (procs params)) < n \<or> int (length p) < 4 * n + 1"
      using assms Set_procs_prio True
      by (cases "n \<le> int (length (procs params))") (auto simp add: wire_def length_procs_slots)
    then show ?thesis
      using Set_procs_prio True by (simp add: set_procs_prio_None)
  next
    case False
    then have "p = []"
      using assms Set_procs_prio by (cases p) (simp_all add: wire_def procs_slots_def)
    then show ?thesis
      using Set_procs_prio by (simp add: lmkd_pack_set_procs_prio_def pk_write_def)
  qed
qed (use assms in \<open>auto simp add: wire_def procprio_slots_def not_le less_Suc_eq intro!: set_fixed_None\<close>)

lemma encode_eq:
  "encode h p c =
     (if args_ok c \<and> length (wire h c) \<le> length p
      then Some (wire h c @ drop (length (wire h c)) p, length (wire h c) * 4) else None)"
  using encode_wire [of c h p] encode_None [of c h p]
  by (simp add: overlay_0 sizeof_int_def)

lemma get_cmd_eq:
  "lmkd_pack_get_cmd h p = (if p = [] then None else Some (ntohl h (p ! 0)))"
  by (simp add: lmkd_pack_get_cmd_def pk_read_def)

lemma get_target_eq:
  "lmkd_pack_get_target h p i =
     (if 0 \<le> i \<and> 2 * i + 2 < int (length p)
      then Some \<lparr>minfree = ntohl h (p ! nat (2 * i + 1)), oom_adj_score = ntohl h (p ! nat (2 * i + 2))\<rparr>
      else None)"
  by (auto simp add: lmkd_pack_get_target_def pk_read_def mult.commute)

lemma get_procprio_eq:
  "lmkd_pack_get_procprio h p field_count =
     (if field_count > 3
      then (if 5 \<le> length p
            then Some \<lparr>pid = ntohl h (p ! 1), uid = ntohl h (p ! 2), oomadj = ntohl h (p ! 3),
                       ptype = ntohl h (p ! 4)\<rparr>
            else None)
      else (if 4 \<le> length p
            then Some \<lparr>pid = ntohl h (p ! 1), uid = ntohl h (p ! 2), oomadj = ntohl h (p ! 3),
                       ptype = PROC_TYPE_APP\<rparr>
            else None))"
  by (auto simp add: lmkd_pack_get_procprio_def pk_read_def)

lemma get_fixed_eq:
  "lmkd_pack_get_procremove h p =
     (if 2 \<le> length p then Some \<lparr>rm_pid = ntohl h (p ! 1)\<rparr> else None)"
  "lmkd_pack_get_getkillcnt h p =
     (if 3 \<le> length p then Some \<lparr>min_oomadj = ntohl h (p ! 1), max_oomadj = ntohl h (p ! 2)\<rparr>
      else None)"
  "lmkd_pack_get_subscribe h p =
     (if 2 \<le> length p then Some \<lparr>evt_type = ntohl h (p ! 1)\<rparr> else None)"
  "lmkd_pack_get_update_props_repl h p =
     (if 2 \<le> length p then Some \<lparr>up_result = ntohl h (p ! 1)\<rparr> else None)"
  "lmkd_pack_get_boot_completed_notif_repl h p =
     (if 2 \<le> length p then Some \<lparr>bc_result = ntohl h (p ! 1)\<rparr> else None)"
  by (auto simp add: lmkd_pack_get_procremove_def lmkd_pack_get_getkillcnt_def
      lmkd_pack_get_subscribe_def lmkd_pack_get_update_props_repl_def
      lmkd_pack_get_boot_completed_notif_repl_def pk_read_def)

subsection \<open>Reading back what was written\<close>

lemma overlay_0_nth: "j < length ws \<Longrightarrow> overlay p 0 ws ! j = ws ! j"
  by (simp add: overlay_0 nth_append)

lemma target_slots_nth:
  "i < length ts \<Longrightarrow>
     target_slots h ts ! (2 * i) = htonl h (minfree (ts ! i))
     \<and> target_slots h ts ! (2 * i + 1) = htonl h (oom_adj_score (ts ! i))"
proof (induction ts arbitrary: i)
  case Nil
  then show ?case by simp
next
  case (Cons t ts)
  then show ?case
    by (cases i) (simp_all add: target_slots_Cons)
qed

lemma procs_slots_nth:
  "k < length rs \<Longrightarrow>
     procs_slots h rs ! (4 * k) = htonl h (pid (rs ! k))
     \<and> procs_slots h rs ! (4 * k + 1) = htonl h (uid (rs ! k))
     \<and> procs_slots h rs ! (4 * k + 2) = htonl h (oomadj (rs ! k))
     \<and> procs_slots h rs ! (4 * k + 3) = htonl h (ptype (rs ! k))"
proof (induction rs arbitrary: k)
  case Nil
  then show ?case by simp
next
  case (Cons r rs)
  then show ?case
    by (cases k) (simp_all add: procs_slots_Cons numeral_eq_Suc)
qed

lemma record_at_batch:
  assumes "k < length rs"
  shows "record_at h (overlay p 0 (c # procs_slots h rs)) k = rs ! k"
proof -
  have "4 * k + 4 < length (c # procs_slots h rs)"
    using assms by (simp add: length_procs_slots)
  then have "overlay p 0 (c # procs_slots h rs) ! (4 * k + 1) = procs_slots h rs ! (4 * k)"
    "overlay p 0 (c # procs_slots h rs) ! (4 * k + 2) = procs_slots h rs ! (4 * k + 1)"
    "overlay p 0 (c # procs_slots h rs) ! (4 * k + 3) = procs_slots h rs ! (4 * k + 2)"
    "overlay p 0 (c # procs_slots h rs) ! (4 * k + 4) = procs_slots h rs ! (4 * k + 3)"
    by (simp_all add: overlay_0_nth numeral_eq_Suc)
  then show ?thesis
    using procs_slots_nth [OF assms, of h] by (simp add: record_at_def ntohl_htonl)
qed

lemma map_record_at_batch:
  "map (record_at h (overlay p 0 (c # procs_slots h rs))) [0..<length rs] = rs"
  by (rule nth_equalityI) (simp_all add: record_at_batch)

lemma set_target_get_target:
  assumes "n \<le> length ts" "2 * n + 1 \<le> length p" "i < n"
  shows "lmkd_pack_set_target h p ts n \<bind> (\<lambda>(p', len). lmkd_pack_get_target h p' (int i))
           = Some (ts ! i)"
proof -
  let ?ws = "htonl h (lmk_cmd_val LMK_TARGET) # target_slots h (take n ts)"
  have len: "length ?ws = 2 * n + 1"
    using assms by (simp add: length_target_slots)
  have i: "i < length (take n ts)"
    using assms by simp
  have "overlay p 0 ?ws ! (2 * i + 1) = target_slots h (take n ts) ! (2 * i)"
    "overlay p 0 ?ws ! (2 * i + 2) = target_slots h (take n ts) ! (2 * i + 1)"
    using assms len by (simp_all add: overlay_0_nth)
  then have slots: "overlay p 0 ?ws ! (2 * i + 1) = htonl h (minfree (ts ! i))"
    "overlay p 0 ?ws ! (2 * i + 2) = htonl h (oom_adj_score (ts ! i))"
    using target_slots_nth [OF i, of h] assms by simp_all
  have idx: "nat (2 * int i + 1) = 2 * i + 1" "nat (2 * int i + 2) = 2 * i + 2"
    by (simp_all add: nat_add_distrib nat_mult_distrib)
  have "2 * int i + 2 < int (length (overlay p 0 ?ws))"
    using assms len by (simp add: length_overlay)
  then have "lmkd_pack_get_target h (overlay p 0 ?ws) (int i) = Some (ts ! i)"
    unfolding get_target_eq idx using slots by (simp add: ntohl_htonl)
  then show ?thesis
    using assms by (simp add: set_target_overlay)
qed

lemma replicate_13_slots: "length (replicate 13 (0::word32)) = CTRL_PACKET_SLOTS"
  by (simp add: ctrl_packet_slots)

lemma lmk_cmd_val_inj: "lmk_cmd_val a = lmk_cmd_val b \<Longrightarrow> a = b"
  by (cases a; cases b; simp)

lemma encode_get_cmd:
  assumes "encode h p c = Some (p', len)"
  shows "p' ! 0 = htonl h (lmk_cmd_val (enc_cmd c))"
    and "lmkd_pack_get_cmd h p' = Some (lmk_cmd_val (enc_cmd c))"
proof -
  have p': "p' = wire h c @ drop (length (wire h c)) p"
    using assms by (simp add: encode_eq split: if_splits)
  then show "p' ! 0 = htonl h (lmk_cmd_val (enc_cmd c))"
    by (simp add: wire_def)
  then show "lmkd_pack_get_cmd h p' = Some (lmk_cmd_val (enc_cmd c))"
    using p' by (simp add: get_cmd_eq ntohl_htonl wire_def)
qed

section \<open>The claims\<close>

text \<open>
  C1.  The batch decoder returns \<open>-1\<close> exactly when the declared field count is below 4 or
  not a multiple of 4.  On a 13-slot packet and a 3-record output struct, the counts
  0, 1, 2, 3, 5, 6 and 7 give \<open>-1\<close>, and the counts 4, 8 and 12 give the record counts
  1, 2 and 3.
\<close>

theorem get_procs_prio_field_count_validation:
  assumes "length packet = CTRL_PACKET_SLOTS"
    and "length (procs params) = PROCS_PRIO_MAX_RECORD_COUNT"
  shows "((\<exists>q. lmkd_pack_get_procs_prio h packet params field_count = Some (- 1, q))
            \<longleftrightarrow> field_count < 4 \<or> \<not> 4 dvd field_count)
    \<and> lmkd_pack_get_procs_prio h packet params 0 = Some (- 1, params)
    \<and> lmkd_pack_get_procs_prio h packet params 1 = Some (- 1, params)
    \<and> lmkd_pack_get_procs_prio h packet params 2 = Some (- 1, params)
    \<and> lmkd_pack_get_procs_prio h packet params 3 = Some (- 1, params)
    \<and> lmkd_pack_get_procs_prio h packet params 5 = Some (- 1, params)
    \<and> lmkd_pack_get_procs_prio h packet params 6 = Some (- 1, params)
    \<and> lmkd_pack_get_procs_prio h packet params 7 = Some (- 1, params)
    \<and> map_option fst (lmkd_pack_get_procs_prio h packet params 4) = Some 1
    \<and> map_option fst (lmkd_pack_get_procs_prio h packet params 8) = Some 2
    \<and> map_option fst (lmkd_pack_get_procs_prio h packet params 12) = Some 3"
proof -
  have len: "length packet = 13" "length (procs params) = 3"
    using assms by (simp_all add: ctrl_packet_slots procs_prio_max_record_count)
  have iff: "(\<exists>q. lmkd_pack_get_procs_prio h packet params field_count = Some (- 1, q))
            \<longleftrightarrow> field_count < 4 \<or> \<not> 4 dvd field_count"
  proof (cases "field_count < 4 \<or> \<not> 4 dvd field_count")
    case True
    then show ?thesis by (simp add: get_procs_prio_invalid)
  next
    case False
    then have v: "4 \<le> field_count" "4 dvd field_count" by auto
    then have "0 < field_count div 4"
      by (simp add: pos_imp_zdiv_pos_iff)
    then show ?thesis
      using False by (auto simp add: get_procs_prio_valid [OF v])
  qed
  have bad: "lmkd_pack_get_procs_prio h packet params k = Some (- 1, params)"
    if "k < 4 \<or> \<not> 4 dvd k" for k
    using that by (rule get_procs_prio_invalid)
  have good: "map_option fst (lmkd_pack_get_procs_prio h packet params k) = Some (k div 4)"
    if "4 \<le> k" "4 dvd k" "k \<le> 12" for k
    using that len by (subst get_procs_prio_ok) auto
  show ?thesis
    using iff bad [of 0] bad [of 1] bad [of 2] bad [of 3] bad [of 5] bad [of 6] bad [of 7]
      good [of 4] good [of 8] good [of 12]
    by simp
qed

theorem get_procs_prio_field_count_validation_witness:
  "length (replicate 13 (0::word32)) = CTRL_PACKET_SLOTS
   \<and> length (procs \<lparr>procs = replicate 3 \<lparr>pid = 0, uid = 0, oomadj = 0, ptype = 0\<rparr>\<rparr>)
       = PROCS_PRIO_MAX_RECORD_COUNT
   \<and> ((6::int) < 4 \<or> \<not> 4 dvd (6::int))
   \<and> (\<exists>q. lmkd_pack_get_procs_prio BigEndian (replicate 13 0)
        \<lparr>procs = replicate 3 \<lparr>pid = 0, uid = 0, oomadj = 0, ptype = 0\<rparr>\<rparr> 6 = Some (- 1, q))
   \<and> map_option fst (lmkd_pack_get_procs_prio BigEndian (replicate 13 0)
        \<lparr>procs = replicate 3 \<lparr>pid = 0, uid = 0, oomadj = 0, ptype = 0\<rparr>\<rparr> 8) = Some 2
   \<and> lmkd_pack_get_procs_prio BigEndian (replicate 13 0)
        \<lparr>procs = replicate 3 \<lparr>pid = 0, uid = 0, oomadj = 0, ptype = 0\<rparr>\<rparr> 7 =
       Some (- 1, \<lparr>procs = replicate 3 \<lparr>pid = 0, uid = 0, oomadj = 0, ptype = 0\<rparr>\<rparr>)"
proof -
  have a: "length (replicate 13 (0::word32)) = CTRL_PACKET_SLOTS"
    by (simp add: ctrl_packet_slots)
  have b: "length (procs \<lparr>procs = replicate 3 \<lparr>pid = 0, uid = 0, oomadj = 0, ptype = 0\<rparr>\<rparr>)
       = PROCS_PRIO_MAX_RECORD_COUNT"
    by (simp add: procs_prio_max_record_count)
  have c: "(6::int) < 4 \<or> \<not> 4 dvd (6::int)"
    by simp
  show ?thesis
    using a b c get_procs_prio_field_count_validation [OF a b, of BigEndian 6]
    by simp
qed

text \<open>
  C2.  Decoding an encoded packet gives back the payload.  On a 13-slot packet: target
  \<open>i\<close> of at most 6 encoded targets is read back unchanged, a ProcPrio payload is read
  back unchanged with field count 4, and so are the ProcRemove, GetKillCnt and Subscribe
  payloads and the UpdateProps and BootCompleted replies.
\<close>

theorem decode_encode_roundtrip:
  assumes "length p = CTRL_PACKET_SLOTS"
  shows "(n \<le> length ts \<and> n \<le> MAX_TARGETS \<and> i < n \<longrightarrow>
       lmkd_pack_set_target h p ts n \<bind> (\<lambda>(p', len). lmkd_pack_get_target h p' (int i))
         = Some (ts ! i))
    \<and> lmkd_pack_set_procprio h p params \<bind> (\<lambda>(p', len). lmkd_pack_get_procprio h p' 4)
         = Some params
    \<and> lmkd_pack_set_procremove h p rm \<bind> (\<lambda>(p', len). lmkd_pack_get_procremove h p')
         = Some rm
    \<and> lmkd_pack_set_getkillcnt h p g \<bind> (\<lambda>(p', len). lmkd_pack_get_getkillcnt h p')
         = Some g
    \<and> lmkd_pack_set_subscribe h p e \<bind> (\<lambda>(p', len). lmkd_pack_get_subscribe h p')
         = Some \<lparr>evt_type = e\<rparr>
    \<and> lmkd_pack_set_update_props_repl h p u
          \<bind> (\<lambda>(p', len). lmkd_pack_get_update_props_repl h p')
         = Some \<lparr>up_result = u\<rparr>
    \<and> lmkd_pack_set_boot_completed_notif_repl h p b
          \<bind> (\<lambda>(p', len). lmkd_pack_get_boot_completed_notif_repl h p')
         = Some \<lparr>bc_result = b\<rparr>"
proof -
  have len: "length p = 13"
    using assms by (simp add: ctrl_packet_slots)
  have t: "lmkd_pack_set_target h p ts n \<bind> (\<lambda>(p', len). lmkd_pack_get_target h p' (int i))
         = Some (ts ! i)" if "n \<le> length ts \<and> n \<le> MAX_TARGETS \<and> i < n"
    using that len by (intro set_target_get_target) (auto simp add: MAX_TARGETS_def)
  have pp: "lmkd_pack_set_procprio h p params \<bind> (\<lambda>(p', len). lmkd_pack_get_procprio h p' 4)
         = Some params"
    using len
    by (simp add: set_procprio_overlay get_procprio_eq length_overlay overlay_0_nth ntohl_htonl)
  have rm: "lmkd_pack_set_procremove h p rm \<bind> (\<lambda>(p', len). lmkd_pack_get_procremove h p')
         = Some rm"
    using len
    by (simp add: set_fixed_overlay get_fixed_eq length_overlay overlay_0_nth ntohl_htonl)
  have g: "lmkd_pack_set_getkillcnt h p g \<bind> (\<lambda>(p', len). lmkd_pack_get_getkillcnt h p')
         = Some g"
    using len
    by (simp add: set_fixed_overlay get_fixed_eq length_overlay overlay_0_nth ntohl_htonl)
  have e: "lmkd_pack_set_subscribe h p e \<bind> (\<lambda>(p', len). lmkd_pack_get_subscribe h p')
         = Some \<lparr>evt_type = e\<rparr>"
    using len
    by (simp add: set_fixed_overlay get_fixed_eq length_overlay overlay_0_nth ntohl_htonl)
  have u: "lmkd_pack_set_update_props_repl h p u
          \<bind> (\<lambda>(p', len). lmkd_pack_get_update_props_repl h p')
         = Some \<lparr>up_result = u\<rparr>"
    using len
    by (simp add: set_fixed_overlay get_fixed_eq length_overlay overlay_0_nth ntohl_htonl)
  have b: "lmkd_pack_set_boot_completed_notif_repl h p b
          \<bind> (\<lambda>(p', len). lmkd_pack_get_boot_completed_notif_repl h p')
         = Some \<lparr>bc_result = b\<rparr>"
    using len
    by (simp add: set_fixed_overlay get_fixed_eq length_overlay overlay_0_nth ntohl_htonl)
  from t pp rm g e u b show ?thesis by blast
qed

theorem decode_encode_roundtrip_witness:
  "length (replicate 13 (0::word32)) = CTRL_PACKET_SLOTS
   \<and> (2::nat) \<le> length [\<lparr>minfree = 8192, oom_adj_score = 0\<rparr>, \<lparr>minfree = 16384, oom_adj_score = 900\<rparr>]
   \<and> (2::nat) \<le> MAX_TARGETS \<and> (1::nat) < 2
   \<and> lmkd_pack_set_target LittleEndian (replicate 13 0)
         [\<lparr>minfree = 8192, oom_adj_score = 0\<rparr>, \<lparr>minfree = 16384, oom_adj_score = 900\<rparr>] 2
       \<bind> (\<lambda>(p', len). lmkd_pack_get_target LittleEndian p' (int 1))
       = Some \<lparr>minfree = 16384, oom_adj_score = 900\<rparr>
   \<and> lmkd_pack_set_procprio LittleEndian (replicate 13 0)
         \<lparr>pid = 1234, uid = 10000, oomadj = 900, ptype = PROC_TYPE_SERVICE\<rparr>
       \<bind> (\<lambda>(p', len). lmkd_pack_get_procprio LittleEndian p' 4)
       = Some \<lparr>pid = 1234, uid = 10000, oomadj = 900, ptype = PROC_TYPE_SERVICE\<rparr>"
  using decode_encode_roundtrip [OF replicate_13_slots, of 2
      "[\<lparr>minfree = 8192, oom_adj_score = 0\<rparr>, \<lparr>minfree = 16384, oom_adj_score = 900\<rparr>]" 1
      LittleEndian "\<lparr>pid = 1234, uid = 10000, oomadj = 900, ptype = PROC_TYPE_SERVICE\<rparr>"]
  by (simp add: ctrl_packet_slots MAX_TARGETS_def)

text \<open>
  C3.  A batch of \<open>n\<close> records, \<open>1 \<le> n \<le> 3\<close>, encodes to \<open>(4n + 1) * 4\<close> bytes; decoding
  that packet with field count \<open>4n\<close> succeeds, returns \<open>n\<close> and stores the \<open>n\<close> records
  unchanged.  Two records make 36 bytes and decode with field count 8.
\<close>

theorem procs_prio_roundtrip:
  assumes "length p = CTRL_PACKET_SLOTS"
    and "length (procs params) = PROCS_PRIO_MAX_RECORD_COUNT"
    and "length (procs out) = PROCS_PRIO_MAX_RECORD_COUNT"
    and "1 \<le> n" "n \<le> 3"
  shows "\<exists>p'. lmkd_pack_set_procs_prio h p params n = Some (p', (4 * nat n + 1) * 4)
    \<and> lmkd_pack_get_procs_prio h p' out (4 * n) =
        Some (n, out\<lparr>procs := take (nat n) (procs params) @ drop (nat n) (procs out)\<rparr>)"
proof -
  let ?rs = "take (nat n) (procs params)"
  let ?p' = "overlay p 0 (htonl h (lmk_cmd_val LMK_PROCS_PRIO) # procs_slots h ?rs)"
  have len: "length p = 13" "length (procs params) = 3" "length (procs out) = 3"
    using assms by (simp_all add: ctrl_packet_slots procs_prio_max_record_count)
  have rs: "length ?rs = nat n"
    using assms len by simp
  have enc: "lmkd_pack_set_procs_prio h p params n = Some (?p', (4 * nat n + 1) * 4)"
    using assms len set_procs_prio_overlay [of n params p h] by (simp add: sizeof_int_def)
  have "length ?p' = 13"
    using assms len rs by (simp add: length_overlay length_procs_slots)
  then have "lmkd_pack_get_procs_prio h ?p' out (4 * n) =
     Some (4 * n div 4,
           out\<lparr>procs := map (record_at h ?p') [0..<nat (4 * n div 4)]
              @ drop (nat (4 * n div 4)) (procs out)\<rparr>)"
    using assms len by (intro get_procs_prio_ok) auto
  moreover have "map (record_at h ?p') [0..<nat n] = ?rs"
    using map_record_at_batch [of h p "htonl h (lmk_cmd_val LMK_PROCS_PRIO)" ?rs]
    by (simp only: rs)
  ultimately have "lmkd_pack_get_procs_prio h ?p' out (4 * n) =
        Some (n, out\<lparr>procs := ?rs @ drop (nat n) (procs out)\<rparr>)"
    by simp
  with enc show ?thesis by blast
qed

theorem procs_prio_roundtrip_witness:
  "length (replicate 13 (0::word32)) = CTRL_PACKET_SLOTS
   \<and> length (procs \<lparr>procs = [\<lparr>pid = 1, uid = 1, oomadj = 0, ptype = PROC_TYPE_APP\<rparr>,
         \<lparr>pid = 2, uid = 2, oomadj = 1, ptype = PROC_TYPE_SERVICE\<rparr>,
         \<lparr>pid = 0, uid = 0, oomadj = 0, ptype = 0\<rparr>]\<rparr>) = PROCS_PRIO_MAX_RECORD_COUNT
   \<and> length (procs \<lparr>procs = replicate 3 \<lparr>pid = 9, uid = 9, oomadj = 9, ptype = 9\<rparr>\<rparr>)
         = PROCS_PRIO_MAX_RECORD_COUNT
   \<and> (1::int) \<le> 2 \<and> (2::int) \<le> 3
   \<and> (\<exists>p'. lmkd_pack_set_procs_prio LittleEndian (replicate 13 0)
        \<lparr>procs = [\<lparr>pid = 1, uid = 1, oomadj = 0, ptype = PROC_TYPE_APP\<rparr>,
         \<lparr>pid = 2, uid = 2, oomadj = 1, ptype = PROC_TYPE_SERVICE\<rparr>,
         \<lparr>pid = 0, uid = 0, oomadj = 0, ptype = 0\<rparr>]\<rparr> 2 = Some (p', 36)
      \<and> lmkd_pack_get_procs_prio LittleEndian p'
           \<lparr>procs = replicate 3 \<lparr>pid = 9, uid = 9, oomadj = 9, ptype = 9\<rparr>\<rparr> 8 =
         Some (2, \<lparr>procs = [\<lparr>pid = 1, uid = 1, oomadj = 0, ptype = PROC_TYPE_APP\<rparr>,
           \<lparr>pid = 2, uid = 2, oomadj = 1, ptype = PROC_TYPE_SERVICE\<rparr>,
           \<lparr>pid = 9, uid = 9, oomadj = 9, ptype = 9\<rparr>]\<rparr>))"
  using procs_prio_roundtrip [of "replicate 13 0"
      "\<lparr>procs = [\<lparr>pid = 1, uid = 1, oomadj = 0, ptype = PROC_TYPE_APP\<rparr>,
         \<lparr>pid = 2, uid = 2, oomadj = 1, ptype = PROC_TYPE_SERVICE\<rparr>,
         \<lparr>pid = 0, uid = 0, oomadj = 0, ptype = 0\<rparr>]\<rparr>"
      "\<lparr>procs = replicate 3 \<lparr>pid = 9, uid = 9, oomadj = 9, ptype = 9\<rparr>\<rparr>" 2 LittleEndian]
  by (simp add: ctrl_packet_slots procs_prio_max_record_count numeral_eq_Suc)

text \<open>
  C4.  With field count 3 the ProcPrio decoder reads pid, uid and oomadj from slots 1 to 3
  and gives \<open>PROC_TYPE_APP\<close> whatever slot 4 holds (it does not read slot 4); with field
  count 4 it reads the type from slot 4.  An encoded ProcPrio packet decoded with field
  count 3 gives the payload with type \<open>PROC_TYPE_APP\<close>.
\<close>

theorem get_procprio_field_count:
  "(4 \<le> length p \<longrightarrow>
      lmkd_pack_get_procprio h p 3 =
        Some \<lparr>pid = ntohl h (p ! 1), uid = ntohl h (p ! 2), oomadj = ntohl h (p ! 3),
              ptype = PROC_TYPE_APP\<rparr>
      \<and> lmkd_pack_get_procprio h (p[4 := v]) 3 = lmkd_pack_get_procprio h p 3)
   \<and> (5 \<le> length p \<longrightarrow>
      lmkd_pack_get_procprio h p 4 =
        Some \<lparr>pid = ntohl h (p ! 1), uid = ntohl h (p ! 2), oomadj = ntohl h (p ! 3),
              ptype = ntohl h (p ! 4)\<rparr>)
   \<and> (length p = CTRL_PACKET_SLOTS \<longrightarrow>
      lmkd_pack_set_procprio h p params \<bind> (\<lambda>(p', len). lmkd_pack_get_procprio h p' 3)
        = Some (params\<lparr>ptype := PROC_TYPE_APP\<rparr>))"
proof (intro conjI impI)
  assume "4 \<le> length p"
  then show "lmkd_pack_get_procprio h p 3 =
        Some \<lparr>pid = ntohl h (p ! 1), uid = ntohl h (p ! 2), oomadj = ntohl h (p ! 3),
              ptype = PROC_TYPE_APP\<rparr>"
    by (simp add: get_procprio_eq)
next
  assume "4 \<le> length p"
  then show "lmkd_pack_get_procprio h (p[4 := v]) 3 = lmkd_pack_get_procprio h p 3"
    by (simp add: get_procprio_eq)
next
  assume "5 \<le> length p"
  then show "lmkd_pack_get_procprio h p 4 =
        Some \<lparr>pid = ntohl h (p ! 1), uid = ntohl h (p ! 2), oomadj = ntohl h (p ! 3),
              ptype = ntohl h (p ! 4)\<rparr>"
    by (simp add: get_procprio_eq)
next
  assume "length p = CTRL_PACKET_SLOTS"
  then have "length p = 13"
    by (simp add: ctrl_packet_slots)
  then show "lmkd_pack_set_procprio h p params \<bind> (\<lambda>(p', len). lmkd_pack_get_procprio h p' 3)
        = Some (params\<lparr>ptype := PROC_TYPE_APP\<rparr>)"
    by (simp add: set_procprio_overlay get_procprio_eq length_overlay overlay_0_nth ntohl_htonl)
qed

theorem get_procprio_field_count_witness:
  "(4::nat) \<le> length (replicate 13 (0::word32)) \<and> (5::nat) \<le> length (replicate 13 (0::word32))
   \<and> length (replicate 13 (0::word32)) = CTRL_PACKET_SLOTS
   \<and> lmkd_pack_get_procprio BigEndian ((replicate 13 0)[4 := 1]) 3 =
       lmkd_pack_get_procprio BigEndian (replicate 13 0) 3
   \<and> lmkd_pack_get_procprio BigEndian (replicate 13 0) 3 =
       Some \<lparr>pid = 0, uid = 0, oomadj = 0, ptype = PROC_TYPE_APP\<rparr>
   \<and> lmkd_pack_set_procprio BigEndian (replicate 13 0)
         \<lparr>pid = 1234, uid = 10000, oomadj = 900, ptype = PROC_TYPE_SERVICE\<rparr>
       \<bind> (\<lambda>(p', len). lmkd_pack_get_procprio BigEndian p' 3)
       = Some \<lparr>pid = 1234, uid = 10000, oomadj = 900, ptype = PROC_TYPE_APP\<rparr>"
  using get_procprio_field_count [of "replicate 13 0" BigEndian 1
      "\<lparr>pid = 1234, uid = 10000, oomadj = 900, ptype = PROC_TYPE_SERVICE\<rparr>"]
  by (simp add: ctrl_packet_slots)

text \<open>
  C5.  Every encode operation returns four times the number of slots it wrote: the
  result buffer is the operation's wire image followed by the untouched rest of the
  buffer, and the returned length is four times the length of the image.  \<open>n\<close> targets
  give \<open>(2n + 1) * 4\<close> bytes, 6 targets give 52 bytes (\<open>CTRL_PACKET_MAX_SIZE\<close>), and a batch
  of 3 records gives 52 bytes.
\<close>

theorem encode_returns_bytes_used:
  "(args_ok c \<and> length (wire h c) \<le> length p \<longrightarrow>
      encode h p c = Some (wire h c @ drop (length (wire h c)) p, length (wire h c) * 4))
   \<and> (n \<le> length ts \<and> 2 * n + 1 \<le> length p \<longrightarrow>
      map_option snd (lmkd_pack_set_target h p ts n) = Some ((2 * n + 1) * 4))
   \<and> (MAX_TARGETS \<le> length ts \<and> length p = CTRL_PACKET_SLOTS \<longrightarrow>
      map_option snd (lmkd_pack_set_target h p ts MAX_TARGETS) = Some CTRL_PACKET_MAX_SIZE
      \<and> CTRL_PACKET_MAX_SIZE = 52)
   \<and> (length (procs params) = PROCS_PRIO_MAX_RECORD_COUNT \<and> length p = CTRL_PACKET_SLOTS \<longrightarrow>
      map_option snd (lmkd_pack_set_procs_prio h p params 3) = Some 52)"
proof (intro conjI impI)
  assume "args_ok c \<and> length (wire h c) \<le> length p"
  then show "encode h p c = Some (wire h c @ drop (length (wire h c)) p, length (wire h c) * 4)"
    by (simp add: encode_eq)
next
  assume "n \<le> length ts \<and> 2 * n + 1 \<le> length p"
  then show "map_option snd (lmkd_pack_set_target h p ts n) = Some ((2 * n + 1) * 4)"
    using set_target_overlay [of n ts p h] by (simp add: sizeof_int_def)
next
  assume "MAX_TARGETS \<le> length ts \<and> length p = CTRL_PACKET_SLOTS"
  then show "map_option snd (lmkd_pack_set_target h p ts MAX_TARGETS) = Some CTRL_PACKET_MAX_SIZE"
    using set_target_overlay [of MAX_TARGETS ts p h]
    by (simp add: ctrl_packet_slots) (simp add: MAX_TARGETS_def CTRL_PACKET_MAX_SIZE_def)
next
  show "CTRL_PACKET_MAX_SIZE = 52"
    by (simp add: CTRL_PACKET_MAX_SIZE_def MAX_TARGETS_def sizeof_int_def)
next
  assume "length (procs params) = PROCS_PRIO_MAX_RECORD_COUNT \<and> length p = CTRL_PACKET_SLOTS"
  then show "map_option snd (lmkd_pack_set_procs_prio h p params 3) = Some 52"
    using set_procs_prio_overlay [of 3 params p h]
    by (simp add: ctrl_packet_slots procs_prio_max_record_count sizeof_int_def)
qed

theorem encode_returns_bytes_used_witness:
  "args_ok (Set_getkillcnt \<lparr>min_oomadj = 0, max_oomadj = 1000\<rparr>)
   \<and> length (wire BigEndian (Set_getkillcnt \<lparr>min_oomadj = 0, max_oomadj = 1000\<rparr>))
       \<le> length (replicate 13 (7::word32))
   \<and> encode BigEndian (replicate 13 7) (Set_getkillcnt \<lparr>min_oomadj = 0, max_oomadj = 1000\<rparr>)
       = Some ([4, 0, 1000] @ replicate 10 7, 12)
   \<and> (6::nat) \<le> length (replicate 6 \<lparr>minfree = 1, oom_adj_score = 2\<rparr>)
   \<and> 2 * (6::nat) + 1 \<le> length (replicate 13 (7::word32))
   \<and> MAX_TARGETS \<le> length (replicate 6 \<lparr>minfree = 1, oom_adj_score = 2\<rparr>)
   \<and> length (replicate 13 (7::word32)) = CTRL_PACKET_SLOTS
   \<and> length (procs \<lparr>procs = replicate 3 \<lparr>pid = 1, uid = 2, oomadj = 3, ptype = 0\<rparr>\<rparr>)
       = PROCS_PRIO_MAX_RECORD_COUNT
   \<and> map_option snd (lmkd_pack_set_target BigEndian (replicate 13 7)
        (replicate 6 \<lparr>minfree = 1, oom_adj_score = 2\<rparr>) 6) = Some 52
   \<and> map_option snd (lmkd_pack_set_procs_prio BigEndian (replicate 13 7)
        \<lparr>procs = replicate 3 \<lparr>pid = 1, uid = 2, oomadj = 3, ptype = 0\<rparr>\<rparr> 3) = Some 52"
  using encode_returns_bytes_used [of "Set_getkillcnt \<lparr>min_oomadj = 0, max_oomadj = 1000\<rparr>"
      BigEndian "replicate 13 7" 6 "replicate 6 \<lparr>minfree = 1, oom_adj_score = 2\<rparr>"
      "\<lparr>procs = replicate 3 \<lparr>pid = 1, uid = 2, oomadj = 3, ptype = 0\<rparr>\<rparr>"]
  by (simp add: wire_def ctrl_packet_slots procs_prio_max_record_count MAX_TARGETS_def
      CTRL_PACKET_MAX_SIZE_def sizeof_int_def)

text \<open>
  C6.  Every encode operation stores its command, converted with \<open>htonl\<close>, in slot 0, and
  \<open>lmkd_pack_get_cmd\<close> returns \<open>ntohl\<close> of slot 0 unchecked.  So it returns the command
  of an encoded packet, and on any buffer whatever slot 0 holds: a buffer whose slot 0
  holds \<open>htonl w\<close> gives \<open>w\<close>, also for \<open>w = 12\<close>, which is no command.
\<close>

theorem command_in_slot_0:
  "(encode h p c = Some (p', len) \<longrightarrow>
      p' ! 0 = htonl h (lmk_cmd_val (enc_cmd c))
      \<and> lmkd_pack_get_cmd h p' = Some (lmk_cmd_val (enc_cmd c)))
   \<and> (args_ok c \<and> length (wire h c) \<le> length p \<longrightarrow> (\<exists>p' len. encode h p c = Some (p', len)))
   \<and> (p \<noteq> [] \<longrightarrow> lmkd_pack_get_cmd h p = Some (ntohl h (p ! 0)))
   \<and> (p \<noteq> [] \<longrightarrow> lmkd_pack_get_cmd h (p[0 := htonl h w]) = Some w)
   \<and> (\<forall>k. lmk_cmd_val k \<noteq> 12)"
proof (intro conjI impI allI)
  assume "encode h p c = Some (p', len)"
  then show "p' ! 0 = htonl h (lmk_cmd_val (enc_cmd c))"
    and "lmkd_pack_get_cmd h p' = Some (lmk_cmd_val (enc_cmd c))"
    by (rule encode_get_cmd)+
next
  assume "args_ok c \<and> length (wire h c) \<le> length p"
  then show "\<exists>p' len. encode h p c = Some (p', len)"
    by (simp add: encode_eq)
next
  assume "p \<noteq> []"
  then show "lmkd_pack_get_cmd h p = Some (ntohl h (p ! 0))"
    by (simp add: get_cmd_eq)
next
  assume "p \<noteq> []"
  then show "lmkd_pack_get_cmd h (p[0 := htonl h w]) = Some w"
    by (simp add: get_cmd_eq ntohl_htonl)
next
  fix k show "lmk_cmd_val k \<noteq> 12"
    by (cases k) simp_all
qed

theorem command_in_slot_0_witness:
  "encode LittleEndian (replicate 13 0) Set_procpurge
     = Some ((replicate 13 0)[0 := htonl LittleEndian 3], 4)
   \<and> args_ok Set_procpurge
   \<and> length (wire LittleEndian Set_procpurge) \<le> length (replicate 13 (0::word32))
   \<and> replicate 13 (0::word32) \<noteq> []
   \<and> lmkd_pack_get_cmd LittleEndian ((replicate 13 0)[0 := htonl LittleEndian 3])
       = Some (lmk_cmd_val LMK_PROCPURGE)
   \<and> lmkd_pack_get_cmd LittleEndian ((replicate 13 0)[0 := htonl LittleEndian 12]) = Some 12"
proof -
  have e: "encode LittleEndian (replicate 13 0) Set_procpurge
     = Some ((replicate 13 0)[0 := htonl LittleEndian 3], 4)"
    by (simp add: lmkd_pack_set_procpurge_def pk_write_def sizeof_int_def)
  show ?thesis
    using e command_in_slot_0 [of LittleEndian "replicate 13 0" Set_procpurge
        "(replicate 13 0)[0 := htonl LittleEndian 3]" 4 12]
    by (simp add: wire_def)
qed

text \<open>
  C7.  The only error return of the codec is the \<open>-1\<close> of the batch decoder, returned
  exactly when the declared field count is below 4 or not a multiple of 4.  On a
  13-slot packet with any contents every other decoder returns a payload (the target
  decoder for each of the 6 target indices), and every encoder whose wire image fits the
  packet returns a packet and a positive byte length of at most 52.
\<close>

theorem only_batch_decoder_fails:
  assumes "length p = CTRL_PACKET_SLOTS"
  shows "((\<exists>q. lmkd_pack_get_procs_prio h p params field_count = Some (- 1, q))
            \<longleftrightarrow> field_count < 4 \<or> \<not> 4 dvd field_count)
    \<and> (\<exists>w. lmkd_pack_get_cmd h p = Some w)
    \<and> (\<exists>r. lmkd_pack_get_procprio h p fc = Some r)
    \<and> (\<exists>r. lmkd_pack_get_procremove h p = Some r)
    \<and> (\<exists>r. lmkd_pack_get_getkillcnt h p = Some r)
    \<and> (\<exists>r. lmkd_pack_get_subscribe h p = Some r)
    \<and> (\<exists>r. lmkd_pack_get_update_props_repl h p = Some r)
    \<and> (\<exists>r. lmkd_pack_get_boot_completed_notif_repl h p = Some r)
    \<and> (0 \<le> i \<and> i < int MAX_TARGETS \<longrightarrow> (\<exists>t. lmkd_pack_get_target h p i = Some t))
    \<and> (args_ok c \<and> length (wire h c) \<le> CTRL_PACKET_SLOTS \<longrightarrow>
         (\<exists>p' len. encode h p c = Some (p', len) \<and> 0 < len \<and> len \<le> CTRL_PACKET_MAX_SIZE))"
proof -
  have len: "length p = 13" "p \<noteq> []"
    using assms by (auto simp add: ctrl_packet_slots)
  have batch: "(\<exists>q. lmkd_pack_get_procs_prio h p params field_count = Some (- 1, q))
            \<longleftrightarrow> field_count < 4 \<or> \<not> 4 dvd field_count"
  proof (cases "field_count < 4 \<or> \<not> 4 dvd field_count")
    case True
    then show ?thesis by (simp add: get_procs_prio_invalid)
  next
    case False
    then have v: "4 \<le> field_count" "4 dvd field_count" by auto
    then have "0 < field_count div 4"
      by (simp add: pos_imp_zdiv_pos_iff)
    then show ?thesis
      using False by (auto simp add: get_procs_prio_valid [OF v])
  qed
  have cmd: "\<exists>w. lmkd_pack_get_cmd h p = Some w"
    using len by (simp add: get_cmd_eq)
  have pp: "\<exists>r. lmkd_pack_get_procprio h p fc = Some r"
    using len by (simp add: get_procprio_eq)
  have fixed: "\<exists>r. lmkd_pack_get_procremove h p = Some r"
    "\<exists>r. lmkd_pack_get_getkillcnt h p = Some r"
    "\<exists>r. lmkd_pack_get_subscribe h p = Some r"
    "\<exists>r. lmkd_pack_get_update_props_repl h p = Some r"
    "\<exists>r. lmkd_pack_get_boot_completed_notif_repl h p = Some r"
    using len by (simp_all add: get_fixed_eq)
  have tgt: "\<exists>t. lmkd_pack_get_target h p i = Some t" if "0 \<le> i \<and> i < int MAX_TARGETS"
    using that len by (simp add: get_target_eq MAX_TARGETS_def)
  have enc: "\<exists>p' len. encode h p c = Some (p', len) \<and> 0 < len \<and> len \<le> CTRL_PACKET_MAX_SIZE"
    if "args_ok c \<and> length (wire h c) \<le> CTRL_PACKET_SLOTS"
  proof -
    have "0 < length (wire h c)" "length (wire h c) \<le> 13"
      using that by (simp_all add: wire_def ctrl_packet_slots)
    then show ?thesis
      using that len
      by (simp add: encode_eq CTRL_PACKET_MAX_SIZE_def MAX_TARGETS_def sizeof_int_def)
  qed
  from batch cmd pp fixed tgt enc show ?thesis by blast
qed

theorem only_batch_decoder_fails_witness:
  "length (replicate 13 (0xFFFFFFFF::word32)) = CTRL_PACKET_SLOTS
   \<and> ((\<exists>q. lmkd_pack_get_procs_prio LittleEndian (replicate 13 0xFFFFFFFF)
            \<lparr>procs = replicate 3 \<lparr>pid = 0, uid = 0, oomadj = 0, ptype = 0\<rparr>\<rparr> 6 = Some (- 1, q))
        \<longleftrightarrow> (6::int) < 4 \<or> \<not> 4 dvd (6::int))
   \<and> (0::int) \<le> 5 \<and> (5::int) < int MAX_TARGETS
   \<and> (\<exists>t. lmkd_pack_get_target LittleEndian (replicate 13 0xFFFFFFFF) 5 = Some t)
   \<and> (\<exists>r. lmkd_pack_get_procprio LittleEndian (replicate 13 0xFFFFFFFF) 4 = Some r)
   \<and> args_ok (Set_prockills 77 10001)
   \<and> length (wire LittleEndian (Set_prockills 77 10001)) \<le> CTRL_PACKET_SLOTS
   \<and> (\<exists>p' len. encode LittleEndian (replicate 13 0xFFFFFFFF) (Set_prockills 77 10001)
         = Some (p', len) \<and> 0 < len \<and> len \<le> CTRL_PACKET_MAX_SIZE)"
proof -
  have a: "length (replicate 13 (0xFFFFFFFF::word32)) = CTRL_PACKET_SLOTS"
    by (simp add: ctrl_packet_slots)
  have b: "args_ok (Set_prockills 77 10001)
      \<and> length (wire LittleEndian (Set_prockills 77 10001)) \<le> CTRL_PACKET_SLOTS"
    by (simp add: wire_def ctrl_packet_slots)
  have c: "(0::int) \<le> 5 \<and> (5::int) < int MAX_TARGETS"
    by (simp add: MAX_TARGETS_def)
  show ?thesis
    using a b c only_batch_decoder_fails [OF a, of LittleEndian
        "\<lparr>procs = replicate 3 \<lparr>pid = 0, uid = 0, oomadj = 0, ptype = 0\<rparr>\<rparr>" 6 4 5
        "Set_prockills 77 10001"]
    by blast
qed

text \<open>
  C8.  The batch decoder has no upper bound on the field count.  For every field count
  that is at least 4 and a multiple of 4 the check passes (the result is never \<open>-1\<close>);
  the decoder then reads the slots 1 to \<open>field_count\<close> and stores \<open>field_count / 4\<close> records,
  so it succeeds exactly when the buffer has more than \<open>field_count\<close> slots and the struct
  at least \<open>field_count / 4\<close> records.  For a field count above 12, such as 16, this runs
  past a 13-slot packet and past a 3-record struct: an access outside the array.
\<close>

theorem get_procs_prio_no_upper_bound:
  assumes "4 \<le> field_count" "4 dvd field_count"
  shows "(\<forall>q. lmkd_pack_get_procs_prio h packet params field_count \<noteq> Some (- 1, q))
    \<and> (field_count < int (length packet) \<and> field_count div 4 \<le> int (length (procs params)) \<longrightarrow>
         lmkd_pack_get_procs_prio h packet params field_count =
           Some (field_count div 4,
                 params\<lparr>procs := map (record_at h packet) [0..<nat (field_count div 4)]
                    @ drop (nat (field_count div 4)) (procs params)\<rparr>))
    \<and> (lmkd_pack_get_procs_prio h packet params field_count = None \<longleftrightarrow>
         int (length packet) \<le> field_count \<or> int (length (procs params)) < field_count div 4)
    \<and> (12 < field_count \<and> length packet = CTRL_PACKET_SLOTS \<longrightarrow>
         lmkd_pack_get_procs_prio h packet params field_count = None)
    \<and> (12 < field_count \<and> length (procs params) = PROCS_PRIO_MAX_RECORD_COUNT \<longrightarrow>
         lmkd_pack_get_procs_prio h packet params field_count = None)"
proof -
  have pos: "0 < field_count div 4"
    using assms by (simp add: pos_imp_zdiv_pos_iff)
  have pass: "\<forall>q. lmkd_pack_get_procs_prio h packet params field_count \<noteq> Some (- 1, q)"
    using pos by (auto simp add: get_procs_prio_valid [OF assms])
  have ok: "lmkd_pack_get_procs_prio h packet params field_count =
           Some (field_count div 4,
                 params\<lparr>procs := map (record_at h packet) [0..<nat (field_count div 4)]
                    @ drop (nat (field_count div 4)) (procs params)\<rparr>)"
    if "field_count < int (length packet) \<and> field_count div 4 \<le> int (length (procs params))"
    using that assms by (intro get_procs_prio_ok) auto
  note fault = get_procs_prio_fault_iff [OF assms, of h packet params]
  have over_packet: "lmkd_pack_get_procs_prio h packet params field_count = None"
    if "12 < field_count \<and> length packet = CTRL_PACKET_SLOTS"
    using that by (simp add: fault ctrl_packet_slots)
  have over_struct: "lmkd_pack_get_procs_prio h packet params field_count = None"
    if "12 < field_count \<and> length (procs params) = PROCS_PRIO_MAX_RECORD_COUNT"
  proof -
    have "3 < field_count div 4"
      using that assms by presburger
    then show ?thesis
      using that by (simp add: fault procs_prio_max_record_count)
  qed
  from pass ok fault over_packet over_struct show ?thesis by blast
qed

theorem get_procs_prio_no_upper_bound_witness:
  "(4::int) \<le> 16 \<and> (4::int) dvd 16 \<and> (12::int) < 16
   \<and> length (replicate 13 (0::word32)) = CTRL_PACKET_SLOTS
   \<and> length (procs \<lparr>procs = replicate 3 \<lparr>pid = 5, uid = 5, oomadj = 5, ptype = 5\<rparr>\<rparr>)
       = PROCS_PRIO_MAX_RECORD_COUNT
   \<and> lmkd_pack_get_procs_prio BigEndian (replicate 13 0)
        \<lparr>procs = replicate 3 \<lparr>pid = 5, uid = 5, oomadj = 5, ptype = 5\<rparr>\<rparr> 16 = None
   \<and> (16::int) < int (length (replicate 17 (0::word32)))
   \<and> (16::int) div 4
        \<le> int (length (procs \<lparr>procs = replicate 4 \<lparr>pid = 5, uid = 5, oomadj = 5, ptype = 5\<rparr>\<rparr>))
   \<and> lmkd_pack_get_procs_prio BigEndian (replicate 17 0)
        \<lparr>procs = replicate 4 \<lparr>pid = 5, uid = 5, oomadj = 5, ptype = 5\<rparr>\<rparr> 16
       = Some (4, \<lparr>procs = map (record_at BigEndian (replicate 17 0)) [0..<4]\<rparr>)"
proof -
  have v: "(4::int) \<le> 16" "(4::int) dvd 16"
    by simp_all
  have a: "length (replicate 13 (0::word32)) = CTRL_PACKET_SLOTS"
    by (simp add: ctrl_packet_slots)
  have b: "length (procs \<lparr>procs = replicate 3 \<lparr>pid = 5, uid = 5, oomadj = 5, ptype = 5\<rparr>\<rparr>)
       = PROCS_PRIO_MAX_RECORD_COUNT"
    by (simp add: procs_prio_max_record_count)
  show ?thesis
    using v a b
      get_procs_prio_no_upper_bound [OF v, of BigEndian "replicate 13 0"
        "\<lparr>procs = replicate 3 \<lparr>pid = 5, uid = 5, oomadj = 5, ptype = 5\<rparr>\<rparr>"]
      get_procs_prio_no_upper_bound [OF v, of BigEndian "replicate 17 0"
        "\<lparr>procs = replicate 4 \<lparr>pid = 5, uid = 5, oomadj = 5, ptype = 5\<rparr>\<rparr>"]
    by simp
qed

text \<open>
  C9.  When the batch decoder fails with \<open>-1\<close>, the output struct is as it was before the
  call: the check comes before the first store.
\<close>

theorem get_procs_prio_failure_keeps_params:
  "field_count < 4 \<or> \<not> 4 dvd field_count \<Longrightarrow>
     lmkd_pack_get_procs_prio h packet params field_count = Some (- 1, params)"
proof -
  assume "field_count < 4 \<or> \<not> 4 dvd field_count"
  then have "field_count < LMK_PROCPRIO_FIELD_COUNT
      \<or> field_count smod LMK_PROCPRIO_FIELD_COUNT \<noteq> 0"
    by (simp add: field_count_check)
  then show ?thesis
    by (simp add: lmkd_pack_get_procs_prio_def)
qed

theorem get_procs_prio_failure_keeps_params_witness:
  "((6::int) < 4 \<or> \<not> 4 dvd (6::int)) \<and>
   lmkd_pack_get_procs_prio LittleEndian (replicate 13 0)
     \<lparr>procs = replicate 3 \<lparr>pid = 7, uid = 8, oomadj = 9, ptype = 1\<rparr>\<rparr> 6 =
     Some (- 1, \<lparr>procs = replicate 3 \<lparr>pid = 7, uid = 8, oomadj = 9, ptype = 1\<rparr>\<rparr>)"
  using get_procs_prio_failure_keeps_params [of 6 LittleEndian "replicate 13 0"
      "\<lparr>procs = replicate 3 \<lparr>pid = 7, uid = 8, oomadj = 9, ptype = 1\<rparr>\<rparr>"]
  by simp

text \<open>
  C10.  \<open>lmkd_pack_set_procprio\<close> always stores all four payload fields, the type in slot
  4, and returns 20 bytes; on a buffer of fewer than 5 slots it writes outside the
  buffer.  No encode operation produces the 3-field ProcPrio format: whenever an encode
  operation leaves a packet whose command is \<open>LMK_PROCPRIO\<close>, the operation is
  \<open>lmkd_pack_set_procprio\<close> and the length is 20 bytes, with the type in slot 4.
\<close>

theorem set_procprio_writes_four_fields:
  "(5 \<le> length p \<longrightarrow>
      lmkd_pack_set_procprio h p params =
        Some ([htonl h (lmk_cmd_val LMK_PROCPRIO), htonl h (pid params), htonl h (uid params),
               htonl h (oomadj params), htonl h (ptype params)] @ drop 5 p, 20))
   \<and> (length p < 5 \<longrightarrow> lmkd_pack_set_procprio h p params = None)
   \<and> (encode h p c = Some (p', len)
        \<and> lmkd_pack_get_cmd h p' = Some (lmk_cmd_val LMK_PROCPRIO) \<longrightarrow>
      len = 20 \<and> (\<exists>r. c = Set_procprio r \<and> p' ! 4 = htonl h (ptype r)))"
proof (intro conjI impI)
  assume "5 \<le> length p"
  then show "lmkd_pack_set_procprio h p params =
        Some ([htonl h (lmk_cmd_val LMK_PROCPRIO), htonl h (pid params), htonl h (uid params),
               htonl h (oomadj params), htonl h (ptype params)] @ drop 5 p, 20)"
    by (simp add: set_procprio_overlay overlay_0) (simp add: eval_nat_numeral)
next
  assume "length p < 5"
  then show "lmkd_pack_set_procprio h p params = None"
    by (rule set_fixed_None)
next
  assume a: "encode h p c = Some (p', len)
        \<and> lmkd_pack_get_cmd h p' = Some (lmk_cmd_val LMK_PROCPRIO)"
  then have "lmk_cmd_val (enc_cmd c) = lmk_cmd_val LMK_PROCPRIO"
    using encode_get_cmd(2) [of h p c p' len] by simp
  then have "enc_cmd c = LMK_PROCPRIO"
    by (rule lmk_cmd_val_inj)
  then obtain r where c: "c = Set_procprio r"
    by (cases c) simp_all
  have "5 \<le> length p"
    using a c set_fixed_None(1) [of p h r] by (cases "5 \<le> length p") simp_all
  then have "len = 20" "p' ! 4 = htonl h (ptype r)"
    using a c by (auto simp add: set_procprio_overlay overlay_0 nth_Cons')
  with c show "len = 20" "\<exists>r. c = Set_procprio r \<and> p' ! 4 = htonl h (ptype r)"
    by simp_all
qed

theorem set_procprio_writes_four_fields_witness:
  "(5::nat) \<le> length (replicate 13 (0::word32))
   \<and> lmkd_pack_set_procprio BigEndian (replicate 13 0)
        \<lparr>pid = 1234, uid = 10000, oomadj = 900, ptype = PROC_TYPE_SERVICE\<rparr>
       = Some ([1, 1234, 10000, 900, 1] @ replicate 8 0, 20)
   \<and> length (replicate 4 (0::word32)) < 5
   \<and> lmkd_pack_set_procprio BigEndian (replicate 4 0)
        \<lparr>pid = 1234, uid = 10000, oomadj = 900, ptype = PROC_TYPE_SERVICE\<rparr> = None
   \<and> encode BigEndian (replicate 13 0)
        (Set_procprio \<lparr>pid = 1234, uid = 10000, oomadj = 900, ptype = PROC_TYPE_SERVICE\<rparr>)
       = Some ([1, 1234, 10000, 900, 1] @ replicate 8 0, 20)
   \<and> lmkd_pack_get_cmd BigEndian ([1, 1234, 10000, 900, 1] @ replicate 8 0)
       = Some (lmk_cmd_val LMK_PROCPRIO)"
  using set_procprio_writes_four_fields [of "replicate 13 0" BigEndian
      "\<lparr>pid = 1234, uid = 10000, oomadj = 900, ptype = PROC_TYPE_SERVICE\<rparr>"
      "Set_procprio \<lparr>pid = 1234, uid = 10000, oomadj = 900, ptype = PROC_TYPE_SERVICE\<rparr>"
      "[1, 1234, 10000, 900, 1] @ replicate 8 0" 20]
    set_procprio_writes_four_fields [of "replicate 4 0" BigEndian
      "\<lparr>pid = 1234, uid = 10000, oomadj = 900, ptype = PROC_TYPE_SERVICE\<rparr>"
      "Set_procprio \<lparr>pid = 1234, uid = 10000, oomadj = 900, ptype = PROC_TYPE_SERVICE\<rparr>"
      "[1, 1234, 10000, 900, 1] @ replicate 8 0" 20]
  by (simp add: PROC_TYPE_SERVICE_def get_cmd_eq)

end
